theory Spec2Isabelle
  imports Main "HOL-Library.Multiset"
begin

section \<open>The fuzzy sequence matcher of the frontend (sequence-matching.ts)\<close>

text \<open>
  The source file imports \<open>fuzzyScore\<close>, \<open>createMatches\<close> and the type \<open>FuzzyScore\<close>
  from \<open>./filter\<close>, a module whose code is not among the sources. The two functions are
  therefore parameters of the model (the record \<open>filter_module\<close>), and the theorems hold
  for any implementation of them; only the claim about the empty filter, which is about
  the scorer itself, is settled against the scorer as the spec describes it. Strings are \<open>char list\<close>: one \<open>char\<close> stands for one
  UTF-16 code unit in the Latin-1 range. A score is taken to be a finite integer and is an
  \<open>int\<close>; \<open>NaN\<close> and the infinities are outside the model, except for the sentinel
  \<open>Number.NEGATIVE_INFINITY\<close> of the aggregator, which is a constructor of its own.
\<close>

subsection \<open>Data model\<close>

text \<open>
  Modelled from the spec: the type \<open>FuzzyScore\<close> of \<open>./filter\<close> (absent). The source reads
  \<open>scores[0]\<close> as the numeric score and hands the whole value to \<open>createMatches\<close>; the spec
  describes it as a best-match score plus the matched positions.
\<close>

record FuzzyScore =
  score0 :: int
  positions :: "int list"

text \<open>
  Modelled from the spec: the elements \<open>{start, end}\<close> that \<open>createMatches\<close> (absent)
  returns; the source reads \<open>match.start\<close> and \<open>match.end\<close>.
\<close>

record IMatch =
  m_start :: int
  m_end :: int

text \<open>The two functions imported from \<open>./filter\<close>, with the signatures of their call sites.\<close>

record filter_module =
  fuzzyScore :: "string \<Rightarrow> string \<Rightarrow> int \<Rightarrow> string \<Rightarrow> string \<Rightarrow> int \<Rightarrow> bool \<Rightarrow> FuzzyScore option"
  createMatches :: "FuzzyScore \<Rightarrow> IMatch list"

text \<open>
  \<open>interface ScorableTextItem { score?: number; strings: string[]; decoratedStrings?: string[][] }\<close>.
  An optional field is an \<open>option\<close>; \<open>T extends ScorableTextItem\<close> is the extensible
  record, whose \<open>more\<close> part holds the other fields of \<open>T\<close>.
\<close>

record ScorableTextItem =
  score :: "int option"
  strings :: "string list"
  decoratedStrings :: "string list list option"

type_synonym MatchDecorator = "string \<Rightarrow> FuzzyScore option \<Rightarrow> string list"

text \<open>
  The optional parameter \<open>decorate?: MatchDecorator\<close> as a call can supply it: left out or
  \<open>undefined\<close> (the default value of the parameter applies), a function, or another falsy
  value such as \<open>null\<close>, which the default does not replace and the test \<open>if (decorate)\<close>
  rejects.
\<close>

datatype decorate_arg = Omitted | Falsy | Given MatchDecorator

text \<open>The running maximum \<open>topScore\<close> starts at \<open>Number.NEGATIVE_INFINITY\<close>.\<close>

datatype number = NEGATIVE_INFINITY | Num int

text \<open>
  Items are objects: the array \<open>items\<close> holds references, and the same object may be
  reached twice. The store maps every reference to the object it points to.
\<close>

type_synonym ref = nat
type_synonym 'a store = "ref \<Rightarrow> 'a ScorableTextItem_scheme"

subsection \<open>String primitives of the language\<close>

text \<open>\<open>String.prototype.toLowerCase\<close> on code units up to 255 (ASCII and Latin-1 capitals).\<close>

definition lowerChar :: "char \<Rightarrow> char" where
  "lowerChar c =
     (let n = (of_char c :: nat)
      in if (65 \<le> n \<and> n \<le> 90) \<or> (192 \<le> n \<and> n \<le> 222 \<and> n \<noteq> 215)
         then char_of (n + 32) else c)"

definition toLowerCase :: "string \<Rightarrow> string" where
  "toLowerCase s = map lowerChar s"

text \<open>
  \<open>s.substring(a, b)\<close>: both indices are clamped to \<open>0..length\<close> and swapped when
  \<open>a > b\<close>; \<open>s.substring(a)\<close> runs to the end of the string. Neither raises.
\<close>

definition clampIndex :: "string \<Rightarrow> int \<Rightarrow> nat" where
  "clampIndex s i = nat (max 0 (min i (int (length s))))"

definition substring :: "string \<Rightarrow> int \<Rightarrow> int \<Rightarrow> string" where
  "substring s a b =
     (let a' = clampIndex s a; b' = clampIndex s b;
          lo = min a' b'; hi = max a' b'
      in take (hi - lo) (drop lo s))"

definition substringFrom :: "string \<Rightarrow> int \<Rightarrow> string" where
  "substringFrom s a = drop (clampIndex s a) s"

text \<open>
  \<open>s.split("::")\<close>: the text is cut at every occurrence of the separator, found from left
  to right without overlap; the empty string gives one empty fragment. \<open>acc\<close> is the
  current fragment, reversed.
\<close>

fun splitAcc :: "string \<Rightarrow> string \<Rightarrow> string list" where
  "splitAcc acc [] = [rev acc]"
| "splitAcc acc [c] = [rev (c # acc)]"
| "splitAcc acc (c # d # cs) =
     (if c = CHR '':'' \<and> d = CHR '':'' then rev acc # splitAcc [] cs
      else splitAcc (c # acc) (d # cs))"

definition split_sep :: "string \<Rightarrow> string list" where
  "split_sep s = splitAcc [] s"

subsection \<open>The decorator\<close>

text \<open>
  The loop of \<open>_decorateMatch\<close> over \<open>matches\<close>; the state is \<open>(actualWord, pos)\<close>.
\<close>

fun wrapMatches :: "string \<Rightarrow> string \<Rightarrow> string \<Rightarrow> IMatch list \<Rightarrow> string \<times> int \<Rightarrow> string \<times> int" where
  "wrapMatches word left right [] st = st"
| "wrapMatches word left right (m # ms) (actualWord, pos) =
     wrapMatches word left right ms
       (actualWord @ substring word pos (m_start m) @ left
          @ substring word (m_start m) (m_end m) @ right,
        m_end m)"

text \<open>\<open>_decorateMatch\<close> (an Isabelle name cannot start with an underscore).\<close>

definition decorateMatch ::
  "filter_module \<Rightarrow> string \<Rightarrow> string \<times> string \<Rightarrow> FuzzyScore option \<Rightarrow> string list" where
  "decorateMatch M word surroundWith scores =
     (case scores of
        None \<Rightarrow> [word]
      | Some sc \<Rightarrow>
          (let matches = createMatches M sc;
               (left, right) = surroundWith;
               (actualWord, pos) = wrapMatches word left right matches ([], 0)
           in split_sep (actualWord @ substringFrom word pos)))"

definition createMatchDecorator :: "filter_module \<Rightarrow> string \<Rightarrow> string \<Rightarrow> MatchDecorator" where
  "createMatchDecorator M left right = (\<lambda>word scores. decorateMatch M word (left, right) scores)"

text \<open>
  Names for the statements about the decorator: \<open>actualWord\<close> is the value of the
  variable of that name when \<open>_decorateMatch\<close> splits it; \<open>joinSep\<close> is
  \<open>fragments.join("::")\<close> and \<open>hasSep\<close> is \<open>s.includes("::")\<close>; \<open>spansOk word pos ms\<close>
  says that the ranges \<open>ms\<close> lie in \<open>word\<close> from \<open>pos\<close> on, from left to right and
  without overlap, which is what the spec lets the decorator assume of the scorer.
  \<open>markersAtOffsets\<close> is the wrapping as the spec words it, against offsets of the
  original string: for each range, the right marker is inserted into the string at the
  range's end offset and the left marker at its start offset, the last range first, so
  that the offsets of the ranges still to come are those of the original string.
\<close>

definition actualWord :: "string \<Rightarrow> string \<Rightarrow> string \<Rightarrow> IMatch list \<Rightarrow> string" where
  "actualWord word left right matches =
     (let (text, pos) = wrapMatches word left right matches ([], 0)
      in text @ substringFrom word pos)"

fun joinSep :: "string list \<Rightarrow> string" where
  "joinSep [] = []"
| "joinSep [f] = f"
| "joinSep (f # g # fs) = f @ ''::'' @ joinSep (g # fs)"

fun hasSep :: "string \<Rightarrow> bool" where
  "hasSep (c # d # cs) = ((c = CHR '':'' \<and> d = CHR '':'') \<or> hasSep (d # cs))"
| "hasSep cs = False"

fun spansOk :: "string \<Rightarrow> int \<Rightarrow> IMatch list \<Rightarrow> bool" where
  "spansOk word pos [] = (0 \<le> pos \<and> pos \<le> int (length word))"
| "spansOk word pos (m # ms) =
     (0 \<le> pos \<and> pos \<le> m_start m \<and> m_start m \<le> m_end m \<and> spansOk word (m_end m) ms)"

definition insertAt :: "nat \<Rightarrow> string \<Rightarrow> string \<Rightarrow> string" where
  "insertAt i x s = take i s @ x @ drop i s"

definition markersAtOffsets :: "string \<Rightarrow> string \<Rightarrow> string \<Rightarrow> IMatch list \<Rightarrow> string" where
  "markersAtOffsets word left right matches =
     foldr (\<lambda>m s. insertAt (nat (m_start m)) left (insertAt (nat (m_end m)) right s))
       matches word"

subsection \<open>The aggregator\<close>

text \<open>\<open>score > topScore\<close>, where \<open>topScore\<close> may still be the sentinel.\<close>

fun greater :: "int \<Rightarrow> number \<Rightarrow> bool" where
  "greater s NEGATIVE_INFINITY = True"
| "greater s (Num t) = (s > t)"

text \<open>
  The \<open>for (const word of item.strings)\<close> loop of \<open>fuzzySequentialMatch\<close>; the state is
  \<open>(topScore, decoratedStrings)\<close>, and \<open>decorate\<close> is \<open>None\<close> when the argument is falsy.
  The parameter \<open>filter\<close> of the source is written \<open>flt\<close> (the name is a constant of
  HOL).
\<close>

fun matchLoop ::
  "filter_module \<Rightarrow> string \<Rightarrow> MatchDecorator option \<Rightarrow> string list
     \<Rightarrow> number \<times> string list list \<Rightarrow> number \<times> string list list" where
  "matchLoop M flt decorate [] st = st"
| "matchLoop M flt decorate (word # words) (topScore, decorated) =
     (let scores = fuzzyScore M flt (toLowerCase flt) 0 word (toLowerCase word) 0 True;
          decorated' = (case decorate of
                          Some d \<Rightarrow> decorated @ [d word scores]
                        | None \<Rightarrow> decorated)
      in case scores of
           None \<Rightarrow> matchLoop M flt decorate words (topScore, decorated')
         | Some sc \<Rightarrow>
             (let score = (if score0 sc = 0 then 1 else score0 sc);
                  topScore' = (if greater score topScore then Num score else topScore)
              in matchLoop M flt decorate words (topScore', decorated')))"

text \<open>The value of the parameter \<open>decorate\<close> inside the function, after the default.\<close>

fun effectiveDecorator :: "filter_module \<Rightarrow> decorate_arg \<Rightarrow> MatchDecorator option" where
  "effectiveDecorator M Omitted = Some (createMatchDecorator M ''['' '']'')"
| "effectiveDecorator M Falsy = None"
| "effectiveDecorator M (Given d) = Some d"

definition fuzzySequentialMatch ::
  "filter_module \<Rightarrow> string \<Rightarrow> 'a ScorableTextItem_scheme \<Rightarrow> decorate_arg
     \<Rightarrow> ScorableTextItem option" where
  "fuzzySequentialMatch M flt item decorate =
     (case matchLoop M flt (effectiveDecorator M decorate) (strings item)
             (NEGATIVE_INFINITY, []) of
        (NEGATIVE_INFINITY, decorated) \<Rightarrow> None
      | (Num topScore, decorated) \<Rightarrow>
          Some \<lparr> score = Some topScore, strings = strings item,
                 decoratedStrings = Some decorated \<rparr>)"

text \<open>
  Names for the statements below: the call of the scorer on one alias exactly as the loop
  makes it, the raw scores \<open>scores[0]\<close> of the aliases that match (in alias order), and
  the expression \<open>scores[0] === 0 ? 1 : scores[0]\<close>.
\<close>

abbreviation callScorer :: "filter_module \<Rightarrow> string \<Rightarrow> string \<Rightarrow> FuzzyScore option" where
  "callScorer M flt word \<equiv> fuzzyScore M flt (toLowerCase flt) 0 word (toLowerCase word) 0 True"

definition rawScores :: "filter_module \<Rightarrow> string \<Rightarrow> string list \<Rightarrow> int list" where
  "rawScores M flt ws = map score0 (List.map_filter (callScorer M flt) ws)"

definition remapZero :: "int \<Rightarrow> int" where
  "remapZero s = (if s = 0 then 1 else s)"

subsection \<open>The filter and rank driver\<close>

text \<open>
  The callback of \<open>items.map\<close>: it writes \<open>match?.score\<close> and \<open>match?.decoratedStrings\<close>
  into the object it is given and returns it. \<open>annotateItem\<close> is the object after the
  two assignments; \<open>mapItems\<close> runs the callback over the array, storing each object
  back behind its reference.
\<close>

definition annotateItem ::
  "filter_module \<Rightarrow> string \<Rightarrow> decorate_arg \<Rightarrow> 'a ScorableTextItem_scheme
     \<Rightarrow> 'a ScorableTextItem_scheme" where
  "annotateItem M flt decorate item =
     (let match = fuzzySequentialMatch M flt item decorate
      in item\<lparr> score := (case match of None \<Rightarrow> None | Some m \<Rightarrow> score m),
               decoratedStrings :=
                 (case match of None \<Rightarrow> None | Some m \<Rightarrow> decoratedStrings m) \<rparr>)"

fun mapItems ::
  "filter_module \<Rightarrow> string \<Rightarrow> decorate_arg \<Rightarrow> ref list \<Rightarrow> 'a store \<Rightarrow> 'a store" where
  "mapItems M flt decorate [] h = h"
| "mapItems M flt decorate (r # rs) h =
     mapItems M flt decorate rs (h(r := annotateItem M flt decorate (h r)))"

text \<open>
  The comparator of the sort. Its parameter patterns \<open>{ score: scoreA = 0 }\<close> read an
  absent score as 0: that reading is \<open>scoreOrZero\<close>.
\<close>

definition scoreOrZero :: "'a ScorableTextItem_scheme \<Rightarrow> int" where
  "scoreOrZero item = (case score item of None \<Rightarrow> 0 | Some s \<Rightarrow> s)"

definition compareFn :: "'a ScorableTextItem_scheme \<Rightarrow> 'a ScorableTextItem_scheme \<Rightarrow> int" where
  "compareFn a b =
     (let scoreA = scoreOrZero a; scoreB = scoreOrZero b
      in if scoreA > scoreB then -1 else if scoreA < scoreB then 1 else 0)"

text \<open>
  \<open>Array.prototype.sort\<close> with a comparator that is a total preorder, as \<open>compareFn\<close>
  is, returns a permutation of the array in the comparator's order. The model computes
  it by insertion from the right, which keeps elements that compare equal in their
  order, as ECMAScript 2019 prescribes; the theorems about the driver use only that the
  result is a permutation and sorted, never the order of ties.
\<close>

fun insertBy :: "('a \<Rightarrow> 'a \<Rightarrow> int) \<Rightarrow> 'a \<Rightarrow> 'a list \<Rightarrow> 'a list" where
  "insertBy cmp x [] = [x]"
| "insertBy cmp x (y # ys) = (if cmp x y \<le> 0 then x # y # ys else y # insertBy cmp x ys)"

definition sortBy :: "('a \<Rightarrow> 'a \<Rightarrow> int) \<Rightarrow> 'a list \<Rightarrow> 'a list" where
  "sortBy cmp xs = foldr (insertBy cmp) xs []"

text \<open>
  \<open>fuzzyFilterSort\<close> returns the new array of references; the store after the call is the
  second component. A decorator left out is replaced by the default before the map, so
  the aggregator receives a function.
\<close>

definition defaultedArg :: "filter_module \<Rightarrow> decorate_arg \<Rightarrow> decorate_arg" where
  "defaultedArg M decorate =
     (case decorate of Omitted \<Rightarrow> Given (createMatchDecorator M ''['' '']'') | d \<Rightarrow> d)"

definition fuzzyFilterSort ::
  "filter_module \<Rightarrow> string \<Rightarrow> ref list \<Rightarrow> decorate_arg \<Rightarrow> 'a store \<Rightarrow> ref list \<times> 'a store" where
  "fuzzyFilterSort M flt items decorate h =
     (let h' = mapItems M flt (defaultedArg M decorate) items h;
          kept = filter (\<lambda>r. score (h' r) \<noteq> None) items
      in (sortBy (\<lambda>a b. compareFn (h' a) (h' b)) kept, h'))"

subsection \<open>The scorer as the spec describes it\<close>

text \<open>
  Modelled from the spec: \<open>fuzzyScore\<close> of \<open>./filter\<close>, whose code is absent. The spec's
  contract of the Sequence Match Scorer: "determine whether every character of the filter
  appears in the candidate in the same relative order (characters may be skipped in
  between), case-insensitively", "all comparisons case-insensitive via lowercasing both
  sides before scoring", and "no match" when the characters cannot all be found in order.
  \<open>isSubsequence\<close> is that test, made on the lowercased arguments the caller passes. The
  spec fixes the numeric score only by its sign and leaves the ranges open, so the answer
  on a match and \<open>createMatches\<close> are parameters of \<open>specModule\<close>.
\<close>

fun isSubsequence :: "string \<Rightarrow> string \<Rightarrow> bool" where
  "isSubsequence [] cs = True"
| "isSubsequence (p # ps) [] = False"
| "isSubsequence (p # ps) (c # cs) =
     (if p = c then isSubsequence ps cs else isSubsequence (p # ps) cs)"

definition specModule ::
  "(string \<Rightarrow> string \<Rightarrow> FuzzyScore) \<Rightarrow> (FuzzyScore \<Rightarrow> IMatch list) \<Rightarrow> filter_module" where
  "specModule answer ranges =
     \<lparr> fuzzyScore = (\<lambda>pattern patternLow patternStart word wordLow wordStart weak.
                       if isSubsequence patternLow wordLow then Some (answer pattern word)
                       else None),
       createMatches = ranges \<rparr>"

subsection \<open>Raising made explicit\<close>

text \<open>
  The functions above return for every input. To state what the source can raise, the
  same code is modelled once more with its failures as values: \<open>error + 'a\<close>, \<open>Inl\<close> the
  exception. The source has no \<open>throw\<close> and no \<open>try\<close>, so an exception can only come
  from a function it calls (the scorer, \<open>createMatches\<close>, the decorator), which then ends
  the call, or from the language: \<open>filter.toLowerCase()\<close> raises a \<open>TypeError\<close> when the
  filter is not a string. The filter is therefore a value of any type here; the
  arguments of a call are evaluated from left to right, so the filter is lowercased
  before the alias. Items are as the interface declares them.
\<close>

datatype error = TypeError | Thrown string

datatype jsval = JUndefined | JNull | JNumber int | JString string

record filter_moduleE =
  fuzzyScoreE :: "string \<Rightarrow> string \<Rightarrow> int \<Rightarrow> string \<Rightarrow> string \<Rightarrow> int \<Rightarrow> bool
                    \<Rightarrow> error + FuzzyScore option"
  createMatchesE :: "FuzzyScore \<Rightarrow> error + IMatch list"

type_synonym MatchDecoratorE = "string \<Rightarrow> FuzzyScore option \<Rightarrow> error + string list"

datatype decorate_argE = OmittedE | FalsyE | GivenE MatchDecoratorE

text \<open>\<open>_decorateMatch\<close>, \<open>createMatchDecorator\<close> and the default of the parameter.\<close>

definition decorateMatchE ::
  "filter_moduleE \<Rightarrow> string \<Rightarrow> string \<times> string \<Rightarrow> FuzzyScore option \<Rightarrow> error + string list" where
  "decorateMatchE ME word surroundWith scores =
     (case scores of
        None \<Rightarrow> Inr [word]
      | Some sc \<Rightarrow>
          (case createMatchesE ME sc of
             Inl e \<Rightarrow> Inl e
           | Inr matches \<Rightarrow>
               (let (left, right) = surroundWith;
                    (actualWord, pos) = wrapMatches word left right matches ([], 0)
                in Inr (split_sep (actualWord @ substringFrom word pos)))))"

definition createMatchDecoratorE :: "filter_moduleE \<Rightarrow> string \<Rightarrow> string \<Rightarrow> MatchDecoratorE" where
  "createMatchDecoratorE ME left right =
     (\<lambda>word scores. decorateMatchE ME word (left, right) scores)"

fun effectiveDecoratorE :: "filter_moduleE \<Rightarrow> decorate_argE \<Rightarrow> MatchDecoratorE option" where
  "effectiveDecoratorE ME OmittedE = Some (createMatchDecoratorE ME ''['' '']'')"
| "effectiveDecoratorE ME FalsyE = None"
| "effectiveDecoratorE ME (GivenE d) = Some d"

text \<open>The loop of \<open>fuzzySequentialMatch\<close>: the first exception ends it.\<close>

fun matchLoopE ::
  "filter_moduleE \<Rightarrow> jsval \<Rightarrow> MatchDecoratorE option \<Rightarrow> string list
     \<Rightarrow> number \<times> string list list \<Rightarrow> error + number \<times> string list list" where
  "matchLoopE ME flt decorate [] st = Inr st"
| "matchLoopE ME flt decorate (word # words) (topScore, decorated) =
     (case flt of
        JString f \<Rightarrow>
          (case fuzzyScoreE ME f (toLowerCase f) 0 word (toLowerCase word) 0 True of
             Inl e \<Rightarrow> Inl e
           | Inr scores \<Rightarrow>
               (case (case decorate of
                        Some d \<Rightarrow> (case d word scores of
                                     Inl e \<Rightarrow> Inl e
                                   | Inr fragments \<Rightarrow> Inr (decorated @ [fragments]))
                      | None \<Rightarrow> Inr decorated) of
                  Inl e \<Rightarrow> Inl e
                | Inr decorated' \<Rightarrow>
                    (case scores of
                       None \<Rightarrow> matchLoopE ME flt decorate words (topScore, decorated')
                     | Some sc \<Rightarrow>
                         (let score = (if score0 sc = 0 then 1 else score0 sc);
                              topScore' = (if greater score topScore then Num score
                                           else topScore)
                          in matchLoopE ME flt decorate words (topScore', decorated')))))
      | _ \<Rightarrow> Inl TypeError)"

definition fuzzySequentialMatchE ::
  "filter_moduleE \<Rightarrow> jsval \<Rightarrow> 'a ScorableTextItem_scheme \<Rightarrow> decorate_argE
     \<Rightarrow> error + ScorableTextItem option" where
  "fuzzySequentialMatchE ME flt item decorate =
     (case matchLoopE ME flt (effectiveDecoratorE ME decorate) (strings item)
             (NEGATIVE_INFINITY, []) of
        Inl e \<Rightarrow> Inl e
      | Inr (NEGATIVE_INFINITY, decorated) \<Rightarrow> Inr None
      | Inr (Num topScore, decorated) \<Rightarrow>
          Inr (Some \<lparr> score = Some topScore, strings = strings item,
                      decoratedStrings = Some decorated \<rparr>))"

text \<open>
  \<open>items.map\<close>: an exception in the callback ends the map; the objects annotated before
  it stay annotated. \<open>fuzzyFilterSortE\<close> returns the exception or the sorted array, and
  the store.
\<close>

fun mapItemsE ::
  "filter_moduleE \<Rightarrow> jsval \<Rightarrow> decorate_argE \<Rightarrow> ref list \<Rightarrow> 'a store
     \<Rightarrow> error option \<times> 'a store" where
  "mapItemsE ME flt decorate [] h = (None, h)"
| "mapItemsE ME flt decorate (r # rs) h =
     (case fuzzySequentialMatchE ME flt (h r) decorate of
        Inl e \<Rightarrow> (Some e, h)
      | Inr match \<Rightarrow>
          mapItemsE ME flt decorate rs
            (h(r := (h r)\<lparr> score := (case match of None \<Rightarrow> None | Some m \<Rightarrow> score m),
                           decoratedStrings :=
                             (case match of None \<Rightarrow> None
                              | Some m \<Rightarrow> decoratedStrings m) \<rparr>)))"

definition defaultedArgE :: "filter_moduleE \<Rightarrow> decorate_argE \<Rightarrow> decorate_argE" where
  "defaultedArgE ME decorate =
     (case decorate of OmittedE \<Rightarrow> GivenE (createMatchDecoratorE ME ''['' '']'') | d \<Rightarrow> d)"

definition fuzzyFilterSortE ::
  "filter_moduleE \<Rightarrow> jsval \<Rightarrow> ref list \<Rightarrow> decorate_argE \<Rightarrow> 'a store
     \<Rightarrow> (error + ref list) \<times> 'a store" where
  "fuzzyFilterSortE ME flt items decorate h =
     (case mapItemsE ME flt (defaultedArgE ME decorate) items h of
        (Some e, h') \<Rightarrow> (Inl e, h')
      | (None, h') \<Rightarrow>
          (Inr (sortBy (\<lambda>a b. compareFn (h' a) (h' b))
                  (filter (\<lambda>r. score (h' r) \<noteq> None) items)), h'))"

text \<open>
  Callees that return: a module and a decorator argument of the first model, seen as
  ones that never raise.
\<close>

definition liftModule :: "filter_module \<Rightarrow> filter_moduleE" where
  "liftModule M =
     \<lparr> fuzzyScoreE = (\<lambda>pattern patternLow patternStart word wordLow wordStart weak.
                        Inr (fuzzyScore M pattern patternLow patternStart word wordLow wordStart weak)),
       createMatchesE = (\<lambda>sc. Inr (createMatches M sc)) \<rparr>"

fun liftArg :: "decorate_arg \<Rightarrow> decorate_argE" where
  "liftArg Omitted = OmittedE"
| "liftArg Falsy = FalsyE"
| "liftArg (Given d) = GivenE (\<lambda>word scores. Inr (d word scores))"

abbreviation callScorerE :: "filter_moduleE \<Rightarrow> string \<Rightarrow> string \<Rightarrow> error + FuzzyScore option" where
  "callScorerE ME f word \<equiv> fuzzyScoreE ME f (toLowerCase f) 0 word (toLowerCase word) 0 True"

subsection \<open>Instances for the closed examples\<close>

text \<open>
  The closed examples need some module in the place of \<open>./filter\<close>. \<open>tableModule\<close> is
  a scorer given by a table from (filter, alias) to its answer; its \<open>createMatches\<close>
  reads \<open>positions\<close> as start and end offsets, two by two. It stands for no code of the
  repository, and no theorem below depends on it outside the examples. \<open>storeOf\<close> is the
  store whose references 0, 1, ... point to the given objects.
\<close>

fun pairsToMatches :: "int list \<Rightarrow> IMatch list" where
  "pairsToMatches (a # b # rest) = \<lparr> m_start = a, m_end = b \<rparr> # pairsToMatches rest"
| "pairsToMatches rest = []"

definition tableModule :: "((string \<times> string) \<times> FuzzyScore) list \<Rightarrow> filter_module" where
  "tableModule table =
     \<lparr> fuzzyScore = (\<lambda>pattern patternLow patternStart word wordLow wordStart weak.
                       map_of table (pattern, word)),
       createMatches = (\<lambda>sc. pairsToMatches (positions sc)) \<rparr>"

definition storeOf :: "ScorableTextItem list \<Rightarrow> unit store" where
  "storeOf objs r =
     (if r < length objs then objs ! r
      else \<lparr> score = None, strings = [], decoratedStrings = None \<rparr>)"

text \<open>
  A table and a store for the examples about decoration: the filter \<open>ki\<close> matches
  \<open>Kitchen\<close> weakly (raw score 0) and \<open>bike\<close> in the middle; \<open>kitchen\<close> and \<open>light:\<close>
  match \<open>light::kitchen\<close> at the offsets 7 to 14 and 0 to 6; \<open>ktch\<close> matches
  \<open>Kitchen::Light\<close> in two ranges, 0 to 1 and 2 to 5.
\<close>

definition kitchenModule :: filter_module where
  "kitchenModule = tableModule
     [((''ki'', ''Kitchen''), \<lparr> score0 = 0, positions = [0, 2] \<rparr>),
      ((''ki'', ''bike''), \<lparr> score0 = -3, positions = [1, 3] \<rparr>),
      ((''kitchen'', ''light::kitchen''), \<lparr> score0 = -7, positions = [7, 14] \<rparr>),
      ((''light:'', ''light::kitchen''), \<lparr> score0 = 12, positions = [0, 6] \<rparr>),
      ((''ktch'', ''Kitchen::Light''), \<lparr> score0 = 8, positions = [0, 1, 2, 5] \<rparr>)]"

definition kitchenStore :: "unit store" where
  "kitchenStore = storeOf
     [\<lparr> score = None, strings = [''Kitchen'', ''Oven'', ''bike''], decoratedStrings = None \<rparr>,
      \<lparr> score = None, strings = [''Oven''], decoratedStrings = None \<rparr>,
      \<lparr> score = None, strings = [''light::kitchen''], decoratedStrings = None \<rparr>,
      \<lparr> score = None, strings = [], decoratedStrings = None \<rparr>,
      \<lparr> score = None, strings = [''light::kitchen'', ''Kitchen''], decoratedStrings = None \<rparr>]"

text \<open>
  One table and one store for the examples about ranking. Under the filter \<open>x\<close> the
  aliases \<open>a\<close>, \<open>b\<close>, \<open>c\<close>, \<open>d\<close>, \<open>f\<close> score 5, -2, 9, 0, -3 and \<open>e\<close> does not
  match. Object 4 carries a score from an earlier pass, objects 0 and 5 tie, object 6 has
  three aliases, object 7 none, and object 8 has a weak alias and a better one.
\<close>

definition rankModule :: filter_module where
  "rankModule = tableModule
     [((''x'', ''a''), \<lparr> score0 = 5, positions = [] \<rparr>),
      ((''x'', ''b''), \<lparr> score0 = -2, positions = [] \<rparr>),
      ((''x'', ''c''), \<lparr> score0 = 9, positions = [] \<rparr>),
      ((''x'', ''d''), \<lparr> score0 = 0, positions = [] \<rparr>),
      ((''x'', ''f''), \<lparr> score0 = -3, positions = [] \<rparr>)]"

definition rankStore :: "unit store" where
  "rankStore = storeOf
     [\<lparr> score = None, strings = [''a''], decoratedStrings = None \<rparr>,
      \<lparr> score = None, strings = [''b''], decoratedStrings = None \<rparr>,
      \<lparr> score = None, strings = [''c''], decoratedStrings = None \<rparr>,
      \<lparr> score = None, strings = [''d''], decoratedStrings = None \<rparr>,
      \<lparr> score = Some 7, strings = [''e''], decoratedStrings = Some [[''[e]'']] \<rparr>,
      \<lparr> score = None, strings = [''a''], decoratedStrings = None \<rparr>,
      \<lparr> score = None, strings = [''f'', ''e'', ''d''], decoratedStrings = None \<rparr>,
      \<lparr> score = None, strings = [], decoratedStrings = None \<rparr>,
      \<lparr> score = None, strings = [''d'', ''a''], decoratedStrings = None \<rparr>]"

text \<open>
  The items of the spec's example of removal, \<open>Kitchen Light\<close> and \<open>Oven\<close>, and an item
  without aliases that carries an old score.
\<close>

definition specStore :: "unit store" where
  "specStore = storeOf
     [\<lparr> score = None, strings = [''Kitchen Light''], decoratedStrings = None \<rparr>,
      \<lparr> score = None, strings = [''Oven''], decoratedStrings = None \<rparr>,
      \<lparr> score = Some 3, strings = [], decoratedStrings = None \<rparr>]"

text \<open>A module whose functions raise on every call, and a decorator that raises.\<close>

definition throwingModule :: filter_moduleE where
  "throwingModule =
     \<lparr> fuzzyScoreE = (\<lambda>pattern patternLow patternStart word wordLow wordStart weak.
                        Inl (Thrown ''fuzzyScore'')),
       createMatchesE = (\<lambda>sc. Inl (Thrown ''createMatches'')) \<rparr>"

definition throwingDecorator :: MatchDecoratorE where
  "throwingDecorator = (\<lambda>word scores. Inl (Thrown ''decorate''))"

section \<open>Properties\<close>

subsection \<open>Splitting and wrapping\<close>

lemma decorateMatch_Some:
  "decorateMatch M word (left, right) (Some sc)
     = split_sep (actualWord word left right (createMatches M sc))"
  by (simp add: decorateMatch_def actualWord_def Let_def split: prod.splits)

lemma splitAcc_nonempty: "splitAcc acc s \<noteq> []"
  by (induction acc s rule: splitAcc.induct) auto

lemma joinSep_Cons: "fs \<noteq> [] \<Longrightarrow> joinSep (f # fs) = f @ ''::'' @ joinSep fs"
  by (cases fs) auto

lemma joinSep_splitAcc: "joinSep (splitAcc acc s) = rev acc @ s"
  by (induction acc s rule: splitAcc.induct) (auto simp: joinSep_Cons splitAcc_nonempty)

lemma joinSep_split_sep: "joinSep (split_sep s) = s"
  by (simp add: split_sep_def joinSep_splitAcc)

lemma hasSep_append_left: "hasSep xs \<Longrightarrow> hasSep (xs @ ys)"
  by (induction xs rule: hasSep.induct) auto

lemma hasSep_snoc2:
  "hasSep (xs @ [c, d]) \<longleftrightarrow> hasSep (xs @ [c]) \<or> (c = CHR '':'' \<and> d = CHR '':'')"
  by (induction xs rule: hasSep.induct) auto

lemma splitAcc_no_sep:
  "\<not> hasSep (rev acc @ take 1 s) \<Longrightarrow> \<forall>f\<in>set (splitAcc acc s). \<not> hasSep f"
proof (induction acc s rule: splitAcc.induct)
  case (1 acc)
  then show ?case by simp
next
  case (2 acc c)
  then show ?case by simp
next
  case (3 acc c d cs)
  show ?case
  proof (cases "c = CHR '':'' \<and> d = CHR '':''")
    case True
    have "\<not> hasSep (rev acc)"
      using "3.prems" hasSep_append_left [of "rev acc" "[c]"] by auto
    moreover have "\<not> hasSep (rev [] @ take 1 cs)" by (cases cs) auto
    ultimately show ?thesis using True "3.IH"(1) by simp
  next
    case False
    have "\<not> hasSep (rev (c # acc) @ take 1 (d # cs))"
      using "3.prems" False hasSep_snoc2 [of "rev acc" c d] by simp
    then show ?thesis using False "3.IH"(2) by auto
  qed
qed

lemma split_sep_no_sep: "f \<in> set (split_sep s) \<Longrightarrow> \<not> hasSep f"
proof -
  have "\<not> hasSep (rev [] @ take 1 s)" by (cases s) auto
  then show "f \<in> set (split_sep s) \<Longrightarrow> \<not> hasSep f"
    using splitAcc_no_sep [of "[]" s] by (simp add: split_sep_def)
qed

lemma splitAcc_leftmost:
  "\<not> hasSep (rev acc @ take 1 s) \<Longrightarrow>
     \<forall>f\<in>set (butlast (splitAcc acc s)). \<not> hasSep (f @ '':'')"
proof (induction acc s rule: splitAcc.induct)
  case (1 acc)
  then show ?case by simp
next
  case (2 acc c)
  then show ?case by simp
next
  case (3 acc c d cs)
  show ?case
  proof (cases "c = CHR '':'' \<and> d = CHR '':''")
    case True
    have here: "\<not> hasSep (rev acc @ '':'')" using "3.prems" True by simp
    have "\<not> hasSep (rev [] @ take 1 cs)" by (cases cs) auto
    with "3.IH"(1) True
    have "\<forall>f\<in>set (butlast (splitAcc [] cs)). \<not> hasSep (f @ '':'')" by simp
    with here True show ?thesis by (simp add: splitAcc_nonempty)
  next
    case False
    have "\<not> hasSep (rev (c # acc) @ take 1 (d # cs))"
      using "3.prems" False hasSep_snoc2 [of "rev acc" c d] by simp
    then show ?thesis using False "3.IH"(2) by auto
  qed
qed

lemma split_sep_leftmost: "f \<in> set (butlast (split_sep s)) \<Longrightarrow> \<not> hasSep (f @ '':'')"
proof -
  have "\<not> hasSep (rev [] @ take 1 s)" by (cases s) auto
  then show "f \<in> set (butlast (split_sep s)) \<Longrightarrow> \<not> hasSep (f @ '':'')"
    using splitAcc_leftmost [of "[]" s] by (simp add: split_sep_def)
qed

lemma splitAcc_single:
  "\<not> hasSep (rev acc @ s) \<Longrightarrow> splitAcc acc s = [rev acc @ s]"
proof (induction acc s rule: splitAcc.induct)
  case (1 acc)
  then show ?case by simp
next
  case (2 acc c)
  then show ?case by simp
next
  case (3 acc c d cs)
  have "hasSep (rev acc @ [c, d]) \<Longrightarrow> hasSep ((rev acc @ [c, d]) @ cs)"
    by (rule hasSep_append_left)
  then have "\<not> hasSep (rev acc @ [c, d])" using "3.prems" by auto
  then have no: "\<not> (c = CHR '':'' \<and> d = CHR '':'')"
    using hasSep_snoc2 [of "rev acc" c d] by simp
  then show ?case using 3 by simp
qed

lemma split_sep_single: "\<not> hasSep s \<Longrightarrow> split_sep s = [s]"
  using splitAcc_single [of "[]" s] by (simp add: split_sep_def)

lemma substring_in_range:
  "0 \<le> a \<Longrightarrow> a \<le> b \<Longrightarrow> b \<le> int (length s) \<Longrightarrow>
     substring s a b = take (nat (b - a)) (drop (nat a) s)"
  by (simp add: substring_def clampIndex_def Let_def min_def max_def nat_diff_distrib)

lemma substringFrom_in_range:
  "0 \<le> a \<Longrightarrow> a \<le> int (length s) \<Longrightarrow> substringFrom s a = drop (nat a) s"
  by (simp add: substringFrom_def clampIndex_def min_def max_def)

lemma spansOk_pos: "spansOk word pos ms \<Longrightarrow> 0 \<le> pos \<and> pos \<le> int (length word)"
  by (induction ms arbitrary: pos) force+

lemma wrapMatches_acc:
  "(case wrapMatches word left right ms (acc, pos) of (t, p) \<Rightarrow> t @ substringFrom word p)
     = acc @ (case wrapMatches word left right ms ([], pos) of (t, p) \<Rightarrow> t @ substringFrom word p)"
proof (induction ms arbitrary: acc pos)
  case Nil
  then show ?case by simp
next
  case (Cons m ms)
  show ?case
    using Cons [of "acc @ substring word pos (m_start m) @ left
                      @ substring word (m_start m) (m_end m) @ right" "m_end m"]
          Cons [of "substring word pos (m_start m) @ left
                      @ substring word (m_start m) (m_end m) @ right" "m_end m"]
    by simp
qed

lemma markers_from:
  "spansOk word pos ms \<Longrightarrow>
     markersAtOffsets word left right ms
       = take (nat pos) word
           @ (case wrapMatches word left right ms ([], pos) of (t, p) \<Rightarrow> t @ substringFrom word p)"
proof (induction ms arbitrary: pos)
  case Nil
  then show ?case by (simp add: markersAtOffsets_def substringFrom_in_range)
next
  case (Cons m ms)
  let ?a = "nat (m_start m)" and ?b = "nat (m_end m)"
  let ?rest = "case wrapMatches word left right ms ([], m_end m) of
                 (t, p) \<Rightarrow> t @ substringFrom word p"
  from Cons.prems have ok: "spansOk word (m_end m) ms"
    and ord: "0 \<le> pos" "pos \<le> m_start m" "m_start m \<le> m_end m" by simp_all
  from spansOk_pos [OF ok] have e: "m_end m \<le> int (length word)" by simp
  have le: "nat pos \<le> ?a" "?a \<le> ?b" "?b \<le> length word" using ord e by simp_all
  have tail: "markersAtOffsets word left right ms = take ?b word @ ?rest"
    by (rule Cons.IH [OF ok])
  have ins_r: "insertAt ?b right (take ?b word @ ?rest) = take ?b word @ right @ ?rest"
    using le by (simp add: insertAt_def)
  have ins_l: "insertAt ?a left (take ?b word @ right @ ?rest)
                 = take ?a word @ left @ take (?b - ?a) (drop ?a word) @ right @ ?rest"
    using le by (simp add: insertAt_def min_absorb2 drop_take)
  have lhs: "markersAtOffsets word left right (m # ms)
               = take ?a word @ left @ take (?b - ?a) (drop ?a word) @ right @ ?rest"
    using tail ins_r ins_l by (simp add: markersAtOffsets_def)
  have s1: "substring word pos (m_start m) = take (?a - nat pos) (drop (nat pos) word)"
    using ord e by (simp add: substring_in_range nat_diff_distrib)
  have s2: "substring word (m_start m) (m_end m) = take (?b - ?a) (drop ?a word)"
    using ord e by (simp add: substring_in_range nat_diff_distrib)
  have pre: "take (nat pos) word @ take (?a - nat pos) (drop (nat pos) word) = take ?a word"
    using le by (metis le_add_diff_inverse take_add)
  have rhs: "(case wrapMatches word left right (m # ms) ([], pos) of
                (t, p) \<Rightarrow> t @ substringFrom word p)
               = take (?a - nat pos) (drop (nat pos) word) @ left
                   @ take (?b - ?a) (drop ?a word) @ right @ ?rest"
    using wrapMatches_acc [of word left right ms
            "substring word pos (m_start m) @ left @ substring word (m_start m) (m_end m) @ right"
            "m_end m"]
    by (simp add: s1 s2)
  show ?case
    unfolding lhs rhs using pre by (metis append.assoc)
qed

lemma actualWord_markers:
  "spansOk word 0 ms \<Longrightarrow> actualWord word left right ms = markersAtOffsets word left right ms"
  using markers_from [of word 0 ms left right] by (simp add: actualWord_def)

subsection \<open>The aggregator loop\<close>

lemma rawScores_Nil: "rawScores M flt [] = []"
  by (simp add: rawScores_def)

lemma rawScores_Cons:
  "rawScores M flt (w # ws) =
     (case callScorer M flt w of None \<Rightarrow> rawScores M flt ws
      | Some sc \<Rightarrow> score0 sc # rawScores M flt ws)"
  by (simp add: rawScores_def split: option.split)

lemma rawScores_empty_iff:
  "rawScores M flt ws = [] \<longleftrightarrow> (\<forall>w\<in>set ws. callScorer M flt w = None)"
  by (induction ws) (auto simp: rawScores_Nil rawScores_Cons split: option.splits)

lemma set_rawScores:
  "set (rawScores M flt ws) = {score0 sc | w sc. w \<in> set ws \<and> callScorer M flt w = Some sc}"
  by (induction ws) (auto simp: rawScores_Nil rawScores_Cons split: option.splits)

lemma topScore_from_Num:
  "fst (matchLoop M flt d ws (Num t, ds)) =
     Num (Max (insert t (set (map remapZero (rawScores M flt ws)))))"
proof (induction ws arbitrary: t ds)
  case Nil
  then show ?case by (simp add: rawScores_Nil)
next
  case (Cons w ws)
  show ?case
  proof (cases "callScorer M flt w")
    case None
    then show ?thesis using Cons.IH by (simp add: rawScores_Cons)
  next
    case (Some sc)
    let ?s = "remapZero (score0 sc)"
    let ?R = "set (map remapZero (rawScores M flt ws))"
    have fin: "finite ?R" by simp
    have step: "fst (matchLoop M flt d (w # ws) (Num t, ds)) =
          Num (Max (insert (if ?s > t then ?s else t) ?R))"
      using Some Cons.IH by (simp add: remapZero_def Let_def)
    have "Max (insert (if ?s > t then ?s else t) ?R) = Max (insert t (insert ?s ?R))"
    proof -
      have "(if ?s > t then ?s else t) = max t ?s" by (simp add: max_def)
      moreover have "Max (insert (max t ?s) ?R) = max (max t ?s) (Max (insert (max t ?s) ?R))"
        using fin by (simp add: max_def)
      ultimately show ?thesis
        using fin by (cases "?R = {}") (auto simp: max.assoc)
    qed
    then show ?thesis using step Some by (simp add: rawScores_Cons)
  qed
qed

lemma topScore_from_sentinel:
  "fst (matchLoop M flt d ws (NEGATIVE_INFINITY, ds)) =
     (if rawScores M flt ws = [] then NEGATIVE_INFINITY
      else Num (Max (set (map remapZero (rawScores M flt ws)))))"
proof (induction ws arbitrary: ds)
  case Nil
  then show ?case by (simp add: rawScores_Nil)
next
  case (Cons w ws)
  show ?case
  proof (cases "callScorer M flt w")
    case None
    then show ?thesis using Cons.IH by (simp add: rawScores_Cons)
  next
    case (Some sc)
    then show ?thesis
      by (simp add: rawScores_Cons topScore_from_Num remapZero_def Let_def)
  qed
qed

lemma decorated_loop_Some:
  "snd (matchLoop M flt (Some d) ws (t, ds)) = ds @ map (\<lambda>w. d w (callScorer M flt w)) ws"
  by (induction ws arbitrary: t ds) (auto simp: Let_def split: option.splits)

lemma decorated_loop_None:
  "snd (matchLoop M flt None ws (t, ds)) = ds"
  by (induction ws arbitrary: t ds) (auto simp: Let_def split: option.splits)
lemma fuzzySequentialMatch_topScore:
  "fuzzySequentialMatch M flt item d =
     (if rawScores M flt (strings item) = [] then None
      else Some \<lparr> score = Some (Max (set (map remapZero (rawScores M flt (strings item))))),
                  strings = strings item,
                  decoratedStrings =
                    Some (snd (matchLoop M flt (effectiveDecorator M d) (strings item)
                                 (NEGATIVE_INFINITY, []))) \<rparr>)"
proof -
  obtain t ds where loop:
    "matchLoop M flt (effectiveDecorator M d) (strings item) (NEGATIVE_INFINITY, []) = (t, ds)"
    by (cases "matchLoop M flt (effectiveDecorator M d) (strings item) (NEGATIVE_INFINITY, [])")
  have "t = (if rawScores M flt (strings item) = [] then NEGATIVE_INFINITY
             else Num (Max (set (map remapZero (rawScores M flt (strings item))))))"
    using topScore_from_sentinel [of M flt "effectiveDecorator M d" "strings item" "[]"] loop
    by simp
  then show ?thesis
    using loop by (simp add: fuzzySequentialMatch_def)
qed

subsection \<open>The store after the map, and the sort\<close>

lemma fuzzySequentialMatch_strings_only:
  "strings a = strings b \<Longrightarrow> fuzzySequentialMatch M flt a d = fuzzySequentialMatch M flt b d"
  by (auto simp: fuzzySequentialMatch_def split: prod.splits number.splits)

lemma annotateItem_strings: "strings (annotateItem M flt d item) = strings item"
  by (simp add: annotateItem_def Let_def)

lemma annotateItem_more:
  "ScorableTextItem.more (annotateItem M flt d item) = ScorableTextItem.more item"
  by (simp add: annotateItem_def Let_def)

lemma annotateItem_idem:
  "annotateItem M flt d (annotateItem M flt d item) = annotateItem M flt d item"
proof -
  have "fuzzySequentialMatch M flt (annotateItem M flt d item) d = fuzzySequentialMatch M flt item d"
    by (rule fuzzySequentialMatch_strings_only) (rule annotateItem_strings)
  then show ?thesis
    by (simp add: annotateItem_def Let_def)
qed

lemma mapItems_apply:
  "mapItems M flt d rs h r = (if r \<in> set rs then annotateItem M flt d (h r) else h r)"
proof (induction rs arbitrary: h)
  case Nil
  then show ?case by simp
next
  case (Cons a rs)
  then show ?case by (simp add: annotateItem_idem)
qed

lemma insertBy_mset: "mset (insertBy cmp x ys) = add_mset x (mset ys)"
  by (induction ys) simp_all

lemma sortBy_mset: "mset (sortBy cmp xs) = mset xs"
  by (induction xs) (simp_all add: sortBy_def insertBy_mset)

lemma sortBy_set: "set (sortBy cmp xs) = set xs"
  using sortBy_mset [of cmp xs] by (metis set_mset_mset)

lemma insertBy_set: "set (insertBy cmp x ys) = insert x (set ys)"
  by (induction ys) auto

lemma insertBy_sorted:
  assumes cmp: "\<And>a b. cmp a b \<le> 0 \<longleftrightarrow> key b \<le> (key a :: int)"
  shows "sorted_wrt (\<lambda>a b. key b \<le> key a) ys \<Longrightarrow> sorted_wrt (\<lambda>a b. key b \<le> key a) (insertBy cmp x ys)"
proof (induction ys)
  case Nil
  then show ?case by simp
next
  case (Cons y ys)
  show ?case
  proof (cases "cmp x y \<le> 0")
    case True
    then have "key y \<le> key x" using cmp by simp
    then show ?thesis using True Cons.prems by auto
  next
    case False
    then have "key x \<le> key y" using cmp [of x y] by simp
    then show ?thesis using False Cons by (auto simp: insertBy_set)
  qed
qed

lemma sortBy_sorted:
  assumes cmp: "\<And>a b. cmp a b \<le> 0 \<longleftrightarrow> key b \<le> (key a :: int)"
  shows "sorted_wrt (\<lambda>a b. key b \<le> key a) (sortBy cmp xs)"
proof (induction xs)
  case Nil
  then show ?case by (simp add: sortBy_def)
next
  case (Cons x xs)
  then show ?case using insertBy_sorted [OF cmp] by (simp add: sortBy_def)
qed

lemma compareFn_ties: "score a = score b \<Longrightarrow> compareFn a b = 0"
  by (simp add: compareFn_def scoreOrZero_def)

lemma compareFn_le0: "compareFn a b \<le> 0 \<longleftrightarrow> scoreOrZero b \<le> scoreOrZero a"
  by (simp add: compareFn_def Let_def)

subsection \<open>The driver\<close>

lemma effectiveDecorator_defaulted:
  "effectiveDecorator M (defaultedArg M d) = effectiveDecorator M d"
  by (cases d) (simp_all add: defaultedArg_def)

lemma fuzzySequentialMatch_defaulted:
  "fuzzySequentialMatch M flt item (defaultedArg M d) = fuzzySequentialMatch M flt item d"
  by (simp add: fuzzySequentialMatch_def effectiveDecorator_defaulted)

lemma annotateItem_defaulted:
  "annotateItem M flt (defaultedArg M d) item = annotateItem M flt d item"
  by (simp add: annotateItem_def fuzzySequentialMatch_defaulted)

lemma fuzzyFilterSort_store:
  "snd (fuzzyFilterSort M flt items d h) r =
     (if r \<in> set items then annotateItem M flt d (h r) else h r)"
  by (simp add: fuzzyFilterSort_def Let_def mapItems_apply annotateItem_defaulted)

lemma fuzzyFilterSort_mset:
  "mset (fst (fuzzyFilterSort M flt items d h)) =
     mset (filter (\<lambda>r. score (snd (fuzzyFilterSort M flt items d h) r) \<noteq> None) items)"
  by (simp add: fuzzyFilterSort_def Let_def sortBy_mset)

lemma fuzzyFilterSort_set:
  "set (fst (fuzzyFilterSort M flt items d h)) =
     {r \<in> set items. score (snd (fuzzyFilterSort M flt items d h) r) \<noteq> None}"
  by (simp add: fuzzyFilterSort_def Let_def sortBy_set)

lemma annotateItem_score:
  "score (annotateItem M flt d item) =
     (if rawScores M flt (strings item) = [] then None
      else Some (Max (set (map remapZero (rawScores M flt (strings item))))))"
  by (simp add: annotateItem_def Let_def fuzzySequentialMatch_topScore)

lemma Max_remapZero_zero:
  assumes "xs \<noteq> []" and "Max (set xs) = 0"
  shows "Max (set (map remapZero xs)) = 1"
proof (rule Max_eqI)
  show "finite (set (map remapZero xs))" by simp
next
  fix y assume "y \<in> set (map remapZero xs)"
  then obtain x where x: "x \<in> set xs" and y: "y = remapZero x" by auto
  from x have "x \<le> Max (set xs)" by simp
  with assms(2) y show "y \<le> 1" by (simp add: remapZero_def)
next
  have "Max (set xs) \<in> set xs" using assms(1) by simp
  with assms(2) have "0 \<in> set xs" by simp
  then have "remapZero 0 \<in> set (map remapZero xs)" by (simp only: set_map imageI)
  then show "1 \<in> set (map remapZero xs)" by (simp add: remapZero_def)
qed

lemma Max_remapZero_nonzero:
  assumes "xs \<noteq> []" and "Max (set xs) \<noteq> 0"
  shows "Max (set (map remapZero xs)) = Max (set xs)"
proof (rule Max_eqI)
  show "finite (set (map remapZero xs))" by simp
next
  fix y assume "y \<in> set (map remapZero xs)"
  then obtain x where x: "x \<in> set xs" and y: "y = remapZero x" by auto
  from x have le: "x \<le> Max (set xs)" by simp
  show "y \<le> Max (set xs)"
  proof (cases "x = 0")
    case True
    with le assms(2) have "1 \<le> Max (set xs)" by simp
    with True y show ?thesis by (simp add: remapZero_def)
  next
    case False
    with le y show ?thesis by (simp add: remapZero_def)
  qed
next
  have "Max (set xs) \<in> set xs" using assms(1) by simp
  then have "remapZero (Max (set xs)) \<in> set (map remapZero xs)" by (simp only: set_map imageI)
  with assms(2) show "Max (set xs) \<in> set (map remapZero xs)" by (simp add: remapZero_def)
qed

lemma map_remapZero_nonzero: "0 \<notin> set xs \<Longrightarrow> map remapZero xs = xs"
  by (induction xs) (auto simp: remapZero_def)

lemma annotateItem_decorated:
  "decoratedStrings (annotateItem M flt d item) =
     (case fuzzySequentialMatch M flt item d of None \<Rightarrow> None | Some m \<Rightarrow> decoratedStrings m)"
  by (simp add: annotateItem_def Let_def)

lemma annotateItem_score_match:
  "score (annotateItem M flt d item) =
     (case fuzzySequentialMatch M flt item d of None \<Rightarrow> None | Some m \<Rightarrow> score m)"
  by (simp add: annotateItem_def Let_def)

lemma fuzzyFilterSort_sorted:
  "sorted_wrt (\<lambda>a b. scoreOrZero (snd (fuzzyFilterSort M flt items d h) b)
                        \<le> scoreOrZero (snd (fuzzyFilterSort M flt items d h) a))
     (fst (fuzzyFilterSort M flt items d h))"
proof -
  let ?h' = "mapItems M flt (defaultedArg M d) items h"
  have "sorted_wrt (\<lambda>a b. scoreOrZero (?h' b) \<le> scoreOrZero (?h' a))
          (sortBy (\<lambda>a b. compareFn (?h' a) (?h' b)) (filter (\<lambda>r. score (?h' r) \<noteq> None) items))"
    by (rule sortBy_sorted [where key = "\<lambda>r. scoreOrZero (?h' r)"]) (rule compareFn_le0)
  then show ?thesis by (simp add: fuzzyFilterSort_def Let_def)
qed

lemma fuzzyFilterSort_sorted_scores:
  "sorted_wrt (\<lambda>a b. \<exists>sa sb. score (snd (fuzzyFilterSort M flt items d h) a) = Some sa
                      \<and> score (snd (fuzzyFilterSort M flt items d h) b) = Some sb \<and> sb \<le> sa)
     (fst (fuzzyFilterSort M flt items d h))"
proof -
  let ?h' = "snd (fuzzyFilterSort M flt items d h)"
  let ?out = "fst (fuzzyFilterSort M flt items d h)"
  have defined: "\<And>r. r \<in> set ?out \<Longrightarrow> score (?h' r) \<noteq> None"
    by (simp add: fuzzyFilterSort_set)
  have "sorted_wrt (\<lambda>a b. scoreOrZero (?h' b) \<le> scoreOrZero (?h' a)) ?out"
    by (rule fuzzyFilterSort_sorted)
  then show ?thesis
  proof (rule sorted_wrt_mono_rel [rotated])
    fix a b assume "a \<in> set ?out" "b \<in> set ?out" "scoreOrZero (?h' b) \<le> scoreOrZero (?h' a)"
    then show "\<exists>sa sb. score (?h' a) = Some sa \<and> score (?h' b) = Some sb \<and> sb \<le> sa"
      using defined [of a] defined [of b] by (auto simp: scoreOrZero_def)
  qed
qed

lemma annotateItem_frame:
  "annotateItem M flt d item =
     item\<lparr> score := score (annotateItem M flt d item),
            decoratedStrings := decoratedStrings (annotateItem M flt d item) \<rparr>"
  by (simp add: annotateItem_def Let_def)

lemma fuzzySequentialMatch_decorated:
  "fuzzySequentialMatch M flt item d = Some m \<Longrightarrow>
     decoratedStrings m =
       (case effectiveDecorator M d of
          None \<Rightarrow> Some []
        | Some dec \<Rightarrow> Some (map (\<lambda>w. dec w (callScorer M flt w)) (strings item)))"
  by (cases "effectiveDecorator M d")
     (auto simp: fuzzySequentialMatch_topScore decorated_loop_None decorated_loop_Some
           split: if_splits)

subsection \<open>The scorer of the spec on the empty filter\<close>

lemma specModule_empty_filter: "callScorer (specModule answer ranges) [] w \<noteq> None"
  by (simp add: specModule_def toLowerCase_def)

lemma rawScores_specModule_empty_filter:
  "rawScores (specModule answer ranges) [] ws = [] \<longleftrightarrow> ws = []"
  by (cases ws) (auto simp: rawScores_empty_iff specModule_empty_filter)

subsection \<open>The model with exceptions\<close>

lemma fuzzyScoreE_lift:
  "fuzzyScoreE (liftModule M) p pl ps w wl ws weak = Inr (fuzzyScore M p pl ps w wl ws weak)"
  by (simp add: liftModule_def)

lemma createMatchesE_lift: "createMatchesE (liftModule M) sc = Inr (createMatches M sc)"
  by (simp add: liftModule_def)

lemma decorateMatchE_lift:
  "decorateMatchE (liftModule M) word sw scores = Inr (decorateMatch M word sw scores)"
  by (cases sw)
     (simp add: decorateMatchE_def decorateMatch_def createMatchesE_lift
           split: option.splits prod.splits)

lemma effectiveDecoratorE_lift:
  "effectiveDecoratorE (liftModule M) (liftArg d)
     = map_option (\<lambda>dec word scores. Inr (dec word scores)) (effectiveDecorator M d)"
  by (cases d) (simp_all add: createMatchDecoratorE_def createMatchDecorator_def decorateMatchE_lift)

lemma matchLoopE_lift:
  "matchLoopE (liftModule M) (JString f)
       (map_option (\<lambda>dec word scores. Inr (dec word scores)) decorate) ws st
     = Inr (matchLoop M f decorate ws st)"
proof (induction ws arbitrary: st)
  case Nil
  then show ?case by simp
next
  case (Cons w ws)
  obtain t ds where st: "st = (t, ds)" by (cases st)
  show ?case
    unfolding st using Cons.IH
    by (cases decorate; cases "callScorer M f w")
       (simp_all add: fuzzyScoreE_lift Let_def)
qed

lemma fuzzySequentialMatchE_lift:
  "fuzzySequentialMatchE (liftModule M) (JString f) item (liftArg d)
     = Inr (fuzzySequentialMatch M f item d)"
  by (simp add: fuzzySequentialMatchE_def fuzzySequentialMatch_def effectiveDecoratorE_lift
        matchLoopE_lift split: prod.splits number.splits)

lemma defaultedArgE_lift:
  "defaultedArgE (liftModule M) (liftArg d) = liftArg (defaultedArg M d)"
  by (cases d)
     (simp_all add: defaultedArgE_def defaultedArg_def createMatchDecoratorE_def
        createMatchDecorator_def decorateMatchE_lift)

lemma mapItemsE_lift:
  "mapItemsE (liftModule M) (JString f) (liftArg d) rs h = (None, mapItems M f d rs h)"
  by (induction rs arbitrary: h)
     (simp_all add: fuzzySequentialMatchE_lift annotateItem_def Let_def)

lemma fuzzyFilterSortE_lift:
  "fuzzyFilterSortE (liftModule M) (JString f) items (liftArg d) h
     = (Inr (fst (fuzzyFilterSort M f items d h)), snd (fuzzyFilterSort M f items d h))"
  by (simp add: fuzzyFilterSortE_def fuzzyFilterSort_def defaultedArgE_lift mapItemsE_lift Let_def)

lemma matchLoopE_raise_origin:
  "matchLoopE ME (JString f) decorate ws st = Inl e \<Longrightarrow>
     \<exists>w\<in>set ws. callScorerE ME f w = Inl e
        \<or> (\<exists>dec s. decorate = Some dec \<and> callScorerE ME f w = Inr s \<and> dec w s = Inl e)"
proof (induction ws arbitrary: st)
  case Nil
  then show ?case by simp
next
  case (Cons w ws)
  obtain t ds where st: "st = (t, ds)" by (cases st)
  show ?case
  proof (cases "callScorerE ME f w")
    case (Inl e')
    then show ?thesis using Cons.prems st by simp
  next
    case (Inr scores)
    show ?thesis
    proof (cases "\<exists>dec. decorate = Some dec \<and> dec w scores = Inl e")
      case True
      then show ?thesis using Inr by auto
    next
      case False
      have "\<exists>st'. matchLoopE ME (JString f) decorate ws st' = Inl e"
        using Cons.prems st Inr False
        by (auto simp: Let_def split: option.splits sum.splits if_splits)
      then obtain st' where "matchLoopE ME (JString f) decorate ws st' = Inl e" ..
      from Cons.IH [OF this] show ?thesis by auto
    qed
  qed
qed

lemma fuzzySequentialMatchE_raise_origin:
  "fuzzySequentialMatchE ME (JString f) item d = Inl e \<Longrightarrow>
     \<exists>w\<in>set (strings item). callScorerE ME f w = Inl e
        \<or> (\<exists>dec s. effectiveDecoratorE ME d = Some dec \<and> callScorerE ME f w = Inr s
                    \<and> dec w s = Inl e)"
proof -
  assume "fuzzySequentialMatchE ME (JString f) item d = Inl e"
  then have "matchLoopE ME (JString f) (effectiveDecoratorE ME d) (strings item)
               (NEGATIVE_INFINITY, []) = Inl e"
    by (auto simp: fuzzySequentialMatchE_def split: sum.splits prod.splits number.splits)
  from matchLoopE_raise_origin [OF this] show ?thesis .
qed

lemma createMatchDecoratorE_raise_origin:
  "createMatchDecoratorE ME left right w s = Inl e \<Longrightarrow>
     \<exists>sc. s = Some sc \<and> createMatchesE ME sc = Inl e"
  by (auto simp: createMatchDecoratorE_def decorateMatchE_def
           split: option.splits sum.splits prod.splits)

lemma matchLoopE_not_string:
  "\<forall>s. flt \<noteq> JString s \<Longrightarrow> ws \<noteq> [] \<Longrightarrow> matchLoopE ME flt decorate ws st = Inl TypeError"
  by (cases ws; cases st; cases flt) simp_all

lemma fuzzySequentialMatchE_not_string:
  "\<forall>s. flt \<noteq> JString s \<Longrightarrow> strings item \<noteq> [] \<Longrightarrow>
     fuzzySequentialMatchE ME flt item d = Inl TypeError"
  by (simp add: fuzzySequentialMatchE_def matchLoopE_not_string)

lemma fuzzySequentialMatchE_no_alias:
  "strings item = [] \<Longrightarrow> fuzzySequentialMatchE ME flt item d = Inr None"
  by (simp add: fuzzySequentialMatchE_def)

lemma fuzzySequentialMatchE_strings_only:
  "strings a = strings b \<Longrightarrow>
     fuzzySequentialMatchE ME flt a d = fuzzySequentialMatchE ME flt b d"
  by (auto simp: fuzzySequentialMatchE_def split: sum.splits prod.splits number.splits)

lemma effectiveDecoratorE_defaulted:
  "effectiveDecoratorE ME (defaultedArgE ME d) = effectiveDecoratorE ME d"
  by (cases d) (simp_all add: defaultedArgE_def)

lemma fuzzySequentialMatchE_defaulted:
  "fuzzySequentialMatchE ME flt item (defaultedArgE ME d) = fuzzySequentialMatchE ME flt item d"
  by (simp add: fuzzySequentialMatchE_def effectiveDecoratorE_defaulted)

lemma mapItemsE_raise_origin:
  "fst (mapItemsE ME flt d rs h) = Some e \<Longrightarrow>
     \<exists>r\<in>set rs. fuzzySequentialMatchE ME flt (h r) d = Inl e"
proof (induction rs arbitrary: h)
  case Nil
  then show ?case by simp
next
  case (Cons a rs)
  show ?case
  proof (cases "fuzzySequentialMatchE ME flt (h a) d")
    case (Inl e')
    then show ?thesis using Cons.prems by simp
  next
    case (Inr match)
    let ?h = "h(a := (h a)\<lparr> score := (case match of None \<Rightarrow> None | Some m \<Rightarrow> score m),
                           decoratedStrings :=
                             (case match of None \<Rightarrow> None
                              | Some m \<Rightarrow> decoratedStrings m) \<rparr>)"
    from Cons.prems Inr have "fst (mapItemsE ME flt d rs ?h) = Some e" by simp
    from Cons.IH [OF this] obtain r where r: "r \<in> set rs"
      and raised: "fuzzySequentialMatchE ME flt (?h r) d = Inl e" by blast
    have "strings (?h r) = strings (h r)" by simp
    then have "fuzzySequentialMatchE ME flt (?h r) d = fuzzySequentialMatchE ME flt (h r) d"
      by (rule fuzzySequentialMatchE_strings_only)
    with raised r show ?thesis by auto
  qed
qed

lemma fuzzyFilterSortE_raise_origin:
  "fst (fuzzyFilterSortE ME flt items d h) = Inl e \<Longrightarrow>
     \<exists>r\<in>set items. fuzzySequentialMatchE ME flt (h r) d = Inl e"
proof -
  assume "fst (fuzzyFilterSortE ME flt items d h) = Inl e"
  then have "fst (mapItemsE ME flt (defaultedArgE ME d) items h) = Some e"
    by (auto simp: fuzzyFilterSortE_def split: prod.splits option.splits)
  from mapItemsE_raise_origin [OF this] show ?thesis
    by (simp add: fuzzySequentialMatchE_defaulted)
qed

subsection \<open>Unfolding the model on concrete inputs\<close>

lemmas eval_defs = fuzzyFilterSort_def defaultedArg_def annotateItem_def fuzzySequentialMatch_def
  tableModule_def storeOf_def createMatchDecorator_def decorateMatch_def substring_def
  substringFrom_def clampIndex_def split_sep_def sortBy_def compareFn_def scoreOrZero_def Let_def
  rankModule_def rankStore_def rawScores_def
  kitchenModule_def kitchenStore_def

lemma toLowerCase_examples:
  "toLowerCase ''Kitchen Light'' = ''kitchen light''"
  "toLowerCase ''Oven'' = ''oven''"
  "toLowerCase ''ktch'' = ''ktch''"
  "toLowerCase [] = []"
  by code_simp+

lemmas spec_defs = specModule_def specStore_def toLowerCase_examples

lemmas evalE_defs = fuzzyFilterSortE_def defaultedArgE_def fuzzySequentialMatchE_def
  createMatchDecoratorE_def decorateMatchE_def liftModule_def throwingModule_def
  throwingDecorator_def

section \<open>The claims\<close>

text \<open>
  Claim C1. An item whose best alias match has the raw score 0 (the greatest raw score
  among its matching aliases is 0) is given the score 1 by the aggregator, so the driver
  keeps it: it is in the output of \<open>fuzzyFilterSort\<close> with score 1. In every other case
  the best raw score passes through unchanged, negative or positive: when the greatest
  raw score of the matching aliases is not 0, it is the score of the aggregator's answer
  and the score the driver writes, also when some other alias of the item scores 0.
\<close>

theorem zero_score_remapped_to_one:
  "(rawScores M flt (strings item) \<noteq> [] \<and> Max (set (rawScores M flt (strings item))) = 0
      \<longrightarrow> (\<exists>m. fuzzySequentialMatch M flt item d = Some m \<and> score m = Some 1))
   \<and> (r \<in> set items \<and> rawScores M flt (strings (h r)) \<noteq> []
        \<and> Max (set (rawScores M flt (strings (h r)))) = 0
      \<longrightarrow> r \<in> set (fst (fuzzyFilterSort M flt items d h))
          \<and> score (snd (fuzzyFilterSort M flt items d h) r) = Some 1)
   \<and> (rawScores M flt (strings item) \<noteq> [] \<and> Max (set (rawScores M flt (strings item))) \<noteq> 0
      \<longrightarrow> (\<exists>m. fuzzySequentialMatch M flt item d = Some m
               \<and> score m = Some (Max (set (rawScores M flt (strings item))))))
   \<and> (r \<in> set items \<and> rawScores M flt (strings (h r)) \<noteq> []
        \<and> Max (set (rawScores M flt (strings (h r)))) \<noteq> 0
      \<longrightarrow> r \<in> set (fst (fuzzyFilterSort M flt items d h))
          \<and> score (snd (fuzzyFilterSort M flt items d h) r)
              = Some (Max (set (rawScores M flt (strings (h r))))))"
proof (intro conjI impI)
  assume "rawScores M flt (strings item) \<noteq> [] \<and> Max (set (rawScores M flt (strings item))) = 0"
  then show "\<exists>m. fuzzySequentialMatch M flt item d = Some m \<and> score m = Some 1"
    using Max_remapZero_zero [of "rawScores M flt (strings item)"]
    by (simp add: fuzzySequentialMatch_topScore)
next
  assume a: "r \<in> set items \<and> rawScores M flt (strings (h r)) \<noteq> []
        \<and> Max (set (rawScores M flt (strings (h r)))) = 0"
  then have sc: "score (snd (fuzzyFilterSort M flt items d h) r) = Some 1"
    using Max_remapZero_zero [of "rawScores M flt (strings (h r))"]
    by (simp add: fuzzyFilterSort_store annotateItem_score)
  then show "score (snd (fuzzyFilterSort M flt items d h) r) = Some 1" .
  from a sc show "r \<in> set (fst (fuzzyFilterSort M flt items d h))"
    by (simp add: fuzzyFilterSort_set)
next
  assume "rawScores M flt (strings item) \<noteq> [] \<and> Max (set (rawScores M flt (strings item))) \<noteq> 0"
  then show "\<exists>m. fuzzySequentialMatch M flt item d = Some m
               \<and> score m = Some (Max (set (rawScores M flt (strings item))))"
    using Max_remapZero_nonzero [of "rawScores M flt (strings item)"]
    by (simp add: fuzzySequentialMatch_topScore)
next
  assume a: "r \<in> set items \<and> rawScores M flt (strings (h r)) \<noteq> []
        \<and> Max (set (rawScores M flt (strings (h r)))) \<noteq> 0"
  then have sc: "score (snd (fuzzyFilterSort M flt items d h) r)
              = Some (Max (set (rawScores M flt (strings (h r)))))"
    using Max_remapZero_nonzero [of "rawScores M flt (strings (h r))"]
    by (simp add: fuzzyFilterSort_store annotateItem_score)
  then show "score (snd (fuzzyFilterSort M flt items d h) r)
              = Some (Max (set (rawScores M flt (strings (h r)))))" .
  from a sc show "r \<in> set (fst (fuzzyFilterSort M flt items d h))"
    by (simp add: fuzzyFilterSort_set)
qed

theorem zero_score_remapped_to_one_witness:
  "rawScores rankModule ''x'' (strings (rankStore 6)) = [-3, 0]
   \<and> (\<exists>m. fuzzySequentialMatch rankModule ''x'' (rankStore 6) Omitted = Some m \<and> score m = Some 1)
   \<and> 6 \<in> set (fst (fuzzyFilterSort rankModule ''x'' [4, 6, 8, 2] Omitted rankStore))
   \<and> score (snd (fuzzyFilterSort rankModule ''x'' [4, 6, 8, 2] Omitted rankStore) 6) = Some 1
   \<and> rawScores rankModule ''x'' (strings (rankStore 8)) = [0, 5]
   \<and> (\<exists>m. fuzzySequentialMatch rankModule ''x'' (rankStore 8) Omitted = Some m
          \<and> score m = Some 5)
   \<and> 8 \<in> set (fst (fuzzyFilterSort rankModule ''x'' [4, 6, 8, 2] Omitted rankStore))
   \<and> score (snd (fuzzyFilterSort rankModule ''x'' [4, 6, 8, 2] Omitted rankStore) 8) = Some 5
   \<and> rawScores rankModule ''x'' (strings (rankStore 2)) = [9]
   \<and> score (snd (fuzzyFilterSort rankModule ''x'' [4, 6, 8, 2] Omitted rankStore) 2) = Some 9
   \<and> rawScores rankModule ''x'' [''b'', ''f''] = [-2, -3]
   \<and> (\<exists>m. fuzzySequentialMatch rankModule ''x''
             \<lparr> score = None, strings = [''b'', ''f''], decoratedStrings = None \<rparr> Omitted = Some m
          \<and> score m = Some (-2))"
proof -
  let ?bf = "\<lparr> score = None, strings = [''b'', ''f''], decoratedStrings = None \<rparr>"
  have raw6: "rawScores rankModule ''x'' (strings (rankStore 6)) = [-3, 0]"
    by (simp add: eval_defs)
  have raw8: "rawScores rankModule ''x'' (strings (rankStore 8)) = [0, 5]"
    by (simp add: eval_defs)
  have raw2: "rawScores rankModule ''x'' (strings (rankStore 2)) = [9]"
    by (simp add: eval_defs)
  have rawbf: "rawScores rankModule ''x'' (strings ?bf) = [-2, -3]"
    by (simp add: eval_defs)
  have best6: "rawScores rankModule ''x'' (strings (rankStore 6)) \<noteq> []
     \<and> Max (set (rawScores rankModule ''x'' (strings (rankStore 6)))) = 0"
    unfolding raw6 by simp
  have best8: "rawScores rankModule ''x'' (strings (rankStore 8)) \<noteq> []
     \<and> Max (set (rawScores rankModule ''x'' (strings (rankStore 8)))) \<noteq> 0"
    unfolding raw8 by simp
  have best2: "rawScores rankModule ''x'' (strings (rankStore 2)) \<noteq> []
     \<and> Max (set (rawScores rankModule ''x'' (strings (rankStore 2)))) \<noteq> 0"
    unfolding raw2 by simp
  have bestbf: "rawScores rankModule ''x'' (strings ?bf) \<noteq> []
     \<and> Max (set (rawScores rankModule ''x'' (strings ?bf))) \<noteq> 0"
    unfolding rawbf by simp
  have in6: "(6::nat) \<in> set [4, 6, 8, 2]" and in8: "(8::nat) \<in> set [4, 6, 8, 2]"
    and in2: "(2::nat) \<in> set [4, 6, 8, 2]" by simp_all
  note t6 = zero_score_remapped_to_one
    [of rankModule "''x''" "rankStore 6" Omitted 6 "[4, 6, 8, 2]" rankStore]
  note t8 = zero_score_remapped_to_one
    [of rankModule "''x''" "rankStore 8" Omitted 8 "[4, 6, 8, 2]" rankStore]
  note t2 = zero_score_remapped_to_one
    [of rankModule "''x''" ?bf Omitted 2 "[4, 6, 8, 2]" rankStore]
  have a6: "\<exists>m. fuzzySequentialMatch rankModule ''x'' (rankStore 6) Omitted = Some m \<and> score m = Some 1"
    using t6 best6 by blast
  have d6: "6 \<in> set (fst (fuzzyFilterSort rankModule ''x'' [4, 6, 8, 2] Omitted rankStore))
     \<and> score (snd (fuzzyFilterSort rankModule ''x'' [4, 6, 8, 2] Omitted rankStore) 6) = Some 1"
    using t6 best6 in6 by blast
  have a8: "\<exists>m. fuzzySequentialMatch rankModule ''x'' (rankStore 8) Omitted = Some m
          \<and> score m = Some (Max (set (rawScores rankModule ''x'' (strings (rankStore 8)))))"
    using t8 best8 by blast
  have d8: "8 \<in> set (fst (fuzzyFilterSort rankModule ''x'' [4, 6, 8, 2] Omitted rankStore))
     \<and> score (snd (fuzzyFilterSort rankModule ''x'' [4, 6, 8, 2] Omitted rankStore) 8)
         = Some (Max (set (rawScores rankModule ''x'' (strings (rankStore 8)))))"
    using t8 best8 in8 by blast
  have d2: "score (snd (fuzzyFilterSort rankModule ''x'' [4, 6, 8, 2] Omitted rankStore) 2)
         = Some (Max (set (rawScores rankModule ''x'' (strings (rankStore 2)))))"
    using t2 best2 in2 by blast
  have abf: "\<exists>m. fuzzySequentialMatch rankModule ''x'' ?bf Omitted = Some m
          \<and> score m = Some (Max (set (rawScores rankModule ''x'' (strings ?bf))))"
    using t2 bestbf by blast
  have m8: "Max (set [0, 5 :: int]) = 5" and m2: "Max (set [9 :: int]) = 9"
    and mbf: "Max (set [-2, -3 :: int]) = -2" by simp_all
  from a8 have a8': "\<exists>m. fuzzySequentialMatch rankModule ''x'' (rankStore 8) Omitted = Some m
          \<and> score m = Some 5"
    unfolding raw8 m8 .
  from d8 have d8': "8 \<in> set (fst (fuzzyFilterSort rankModule ''x'' [4, 6, 8, 2] Omitted rankStore))
     \<and> score (snd (fuzzyFilterSort rankModule ''x'' [4, 6, 8, 2] Omitted rankStore) 8) = Some 5"
    unfolding raw8 m8 .
  from d2 have d2': "score (snd (fuzzyFilterSort rankModule ''x'' [4, 6, 8, 2] Omitted rankStore) 2)
      = Some 9"
    unfolding raw2 m2 .
  from abf have abf': "\<exists>m. fuzzySequentialMatch rankModule ''x'' ?bf Omitted = Some m
          \<and> score m = Some (-2)"
    unfolding rawbf mbf .
  have rawbf': "rawScores rankModule ''x'' [''b'', ''f''] = [-2, -3]"
    using rawbf by simp
  show ?thesis
    using raw6 a6 d6 raw8 a8' d8' raw2 d2' rawbf' abf' by (simp only: simp_thms)
qed

text \<open>
  Claim C2. For every filter and every item, the aggregator \<open>fuzzySequentialMatch\<close> asks
  the scorer about every alias. It returns \<open>undefined\<close> exactly when no alias matches.
  When some alias matches, the score it returns is the greatest, over all matching
  aliases, of the raw score after the remap of 0 to 1; the alias list is returned
  unchanged.
\<close>

theorem aggregator_max_over_aliases:
  "(fuzzySequentialMatch M flt item d = None
      \<longleftrightarrow> (\<forall>w\<in>set (strings item). callScorer M flt w = None))
   \<and> (\<forall>m. fuzzySequentialMatch M flt item d = Some m \<longrightarrow>
         score m = Some (Max (set (map remapZero (rawScores M flt (strings item)))))
         \<and> set (rawScores M flt (strings item))
             = {score0 sc | w sc. w \<in> set (strings item) \<and> callScorer M flt w = Some sc}
         \<and> strings m = strings item)"
proof (intro conjI allI impI)
  show "fuzzySequentialMatch M flt item d = None
      \<longleftrightarrow> (\<forall>w\<in>set (strings item). callScorer M flt w = None)"
    by (simp add: fuzzySequentialMatch_topScore rawScores_empty_iff)
next
  fix m assume m: "fuzzySequentialMatch M flt item d = Some m"
  then show "score m = Some (Max (set (map remapZero (rawScores M flt (strings item)))))"
    by (auto simp: fuzzySequentialMatch_topScore split: if_splits)
  from m show "strings m = strings item"
    by (auto simp: fuzzySequentialMatch_topScore split: if_splits)
  show "set (rawScores M flt (strings item))
             = {score0 sc | w sc. w \<in> set (strings item) \<and> callScorer M flt w = Some sc}"
    by (rule set_rawScores)
qed

theorem aggregator_max_over_aliases_witness:
  "fuzzySequentialMatch kitchenModule ''ki'' (kitchenStore 0) Omitted
     = Some \<lparr> score = Some 1, strings = [''Kitchen'', ''Oven'', ''bike''],
              decoratedStrings = Some [[''[Ki]tchen''], [''Oven''], [''b[ik]e'']] \<rparr>
   \<and> rawScores kitchenModule ''ki'' (strings (kitchenStore 0)) = [0, -3]
   \<and> Max (set (map remapZero [0, -3])) = 1
   \<and> strings (kitchenStore 1) = [''Oven'']
   \<and> callScorer kitchenModule ''ki'' ''Oven'' = None
   \<and> fuzzySequentialMatch kitchenModule ''ki'' (kitchenStore 1) Omitted = None"
proof -
  let ?m = "\<lparr> score = Some 1, strings = [''Kitchen'', ''Oven'', ''bike''],
              decoratedStrings = Some [[''[Ki]tchen''], [''Oven''], [''b[ik]e'']] \<rparr>"
  have found: "fuzzySequentialMatch kitchenModule ''ki'' (kitchenStore 0) Omitted = Some ?m"
    by (simp add: eval_defs)
  have raw: "rawScores kitchenModule ''ki'' (strings (kitchenStore 0)) = [0, -3]"
    by (simp add: eval_defs)
  have oven: "strings (kitchenStore 1) = [''Oven'']"
    by (simp add: eval_defs)
  have no: "callScorer kitchenModule ''ki'' ''Oven'' = None"
    by (simp add: eval_defs)
  have none: "\<forall>w\<in>set (strings (kitchenStore 1)). callScorer kitchenModule ''ki'' w = None"
    unfolding oven using no by simp
  from aggregator_max_over_aliases [of kitchenModule "''ki''" "kitchenStore 0" Omitted] found
  have "score ?m
      = Some (Max (set (map remapZero (rawScores kitchenModule ''ki'' (strings (kitchenStore 0))))))"
    by blast
  then have best: "Max (set (map remapZero [0, -3])) = 1"
    unfolding raw by simp
  from aggregator_max_over_aliases [of kitchenModule "''ki''" "kitchenStore 1" Omitted] none
  have "fuzzySequentialMatch kitchenModule ''ki'' (kitchenStore 1) Omitted = None"
    by blast
  then show ?thesis using found raw best oven no by simp
qed

text \<open>
  Claim C3, as stated, asks for strictly descending scores. Two items with the same score
  both stay in the output, so the order cannot be strict, whichever of the two comes
  first: objects 0 and 5 both score 5 and both are returned.
\<close>

theorem strictly_descending_counterexample:
  "set (fst (fuzzyFilterSort rankModule ''x'' [0, 5] Omitted rankStore)) = {0, 5}
   \<and> length (fst (fuzzyFilterSort rankModule ''x'' [0, 5] Omitted rankStore)) = 2
   \<and> score (snd (fuzzyFilterSort rankModule ''x'' [0, 5] Omitted rankStore) 0) = Some 5
   \<and> score (snd (fuzzyFilterSort rankModule ''x'' [0, 5] Omitted rankStore) 5) = Some 5
   \<and> \<not> scoreOrZero (snd (fuzzyFilterSort rankModule ''x'' [0, 5] Omitted rankStore) 5)
         < scoreOrZero (snd (fuzzyFilterSort rankModule ''x'' [0, 5] Omitted rankStore) 0)
   \<and> \<not> scoreOrZero (snd (fuzzyFilterSort rankModule ''x'' [0, 5] Omitted rankStore) 0)
         < scoreOrZero (snd (fuzzyFilterSort rankModule ''x'' [0, 5] Omitted rankStore) 5)"
  by (simp add: eval_defs)

text \<open>
  Claim C3, amended. For every filter and every array of items, \<open>fuzzyFilterSort\<close> writes
  onto each item the score and the decorated strings of the aggregator's answer (both
  absent when there is none), removes every item whose score is undefined (the output
  holds exactly the references whose score is defined, each as often as it occurs in the
  input), and returns them sorted by descending score, equal scores allowed. Ties are not
  broken by any secondary key: the comparator answers 0 for any two items of equal
  score, whatever their other fields.
\<close>

theorem filter_rank_sorted_descending:
  "(\<forall>r\<in>set items.
       score (snd (fuzzyFilterSort M flt items d h) r)
         = (case fuzzySequentialMatch M flt (h r) d of None \<Rightarrow> None | Some m \<Rightarrow> score m)
     \<and> decoratedStrings (snd (fuzzyFilterSort M flt items d h) r)
         = (case fuzzySequentialMatch M flt (h r) d of None \<Rightarrow> None
            | Some m \<Rightarrow> decoratedStrings m))
   \<and> mset (fst (fuzzyFilterSort M flt items d h))
       = mset (filter (\<lambda>r. score (snd (fuzzyFilterSort M flt items d h) r) \<noteq> None) items)
   \<and> sorted_wrt (\<lambda>a b. \<exists>sa sb. score (snd (fuzzyFilterSort M flt items d h) a) = Some sa
                      \<and> score (snd (fuzzyFilterSort M flt items d h) b) = Some sb \<and> sb \<le> sa)
       (fst (fuzzyFilterSort M flt items d h))
   \<and> (\<forall>a b. score (snd (fuzzyFilterSort M flt items d h) a)
              = score (snd (fuzzyFilterSort M flt items d h) b)
          \<longrightarrow> compareFn (snd (fuzzyFilterSort M flt items d h) a)
                        (snd (fuzzyFilterSort M flt items d h) b) = 0)"
proof (intro conjI ballI allI impI)
  fix r assume "r \<in> set items"
  then show "score (snd (fuzzyFilterSort M flt items d h) r)
         = (case fuzzySequentialMatch M flt (h r) d of None \<Rightarrow> None | Some m \<Rightarrow> score m)"
    by (simp add: fuzzyFilterSort_store annotateItem_score_match)
next
  fix r assume "r \<in> set items"
  then show "decoratedStrings (snd (fuzzyFilterSort M flt items d h) r)
         = (case fuzzySequentialMatch M flt (h r) d of None \<Rightarrow> None
            | Some m \<Rightarrow> decoratedStrings m)"
    by (simp add: fuzzyFilterSort_store annotateItem_decorated)
next
  show "mset (fst (fuzzyFilterSort M flt items d h))
       = mset (filter (\<lambda>r. score (snd (fuzzyFilterSort M flt items d h) r) \<noteq> None) items)"
    by (rule fuzzyFilterSort_mset)
next
  show "sorted_wrt (\<lambda>a b. \<exists>sa sb. score (snd (fuzzyFilterSort M flt items d h) a) = Some sa
                      \<and> score (snd (fuzzyFilterSort M flt items d h) b) = Some sb \<and> sb \<le> sa)
       (fst (fuzzyFilterSort M flt items d h))"
    by (rule fuzzyFilterSort_sorted_scores)
next
  fix a b
  assume "score (snd (fuzzyFilterSort M flt items d h) a)
              = score (snd (fuzzyFilterSort M flt items d h) b)"
  then show "compareFn (snd (fuzzyFilterSort M flt items d h) a)
                        (snd (fuzzyFilterSort M flt items d h) b) = 0"
    by (rule compareFn_ties)
qed

theorem filter_rank_sorted_descending_witness:
  "fst (fuzzyFilterSort rankModule ''x'' [0, 1, 2, 3, 4] Omitted rankStore) = [2, 0, 3, 1]
   \<and> map (\<lambda>r. score (snd (fuzzyFilterSort rankModule ''x'' [0, 1, 2, 3, 4] Omitted rankStore) r))
        [2, 0, 3, 1, 4] = [Some 9, Some 5, Some 1, Some (-2), None]
   \<and> mset [2, 0, 3, 1]
       = mset (filter (\<lambda>r. score (snd (fuzzyFilterSort rankModule ''x'' [0, 1, 2, 3, 4] Omitted
                                         rankStore) r) \<noteq> None) [0, 1, 2, 3, 4])
   \<and> sorted_wrt (\<lambda>a b. \<exists>sa sb.
          score (snd (fuzzyFilterSort rankModule ''x'' [0, 1, 2, 3, 4] Omitted rankStore) a) = Some sa
        \<and> score (snd (fuzzyFilterSort rankModule ''x'' [0, 1, 2, 3, 4] Omitted rankStore) b) = Some sb
        \<and> sb \<le> sa) [2, 0, 3, 1]
   \<and> score (snd (fuzzyFilterSort rankModule ''x'' [0, 5] Omitted rankStore) 0)
       = score (snd (fuzzyFilterSort rankModule ''x'' [0, 5] Omitted rankStore) 5)
   \<and> compareFn (snd (fuzzyFilterSort rankModule ''x'' [0, 5] Omitted rankStore) 0)
                 (snd (fuzzyFilterSort rankModule ''x'' [0, 5] Omitted rankStore) 5) = 0"
proof -
  have out: "fst (fuzzyFilterSort rankModule ''x'' [0, 1, 2, 3, 4] Omitted rankStore) = [2, 0, 3, 1]"
    by (simp add: eval_defs)
  have scores:
    "map (\<lambda>r. score (snd (fuzzyFilterSort rankModule ''x'' [0, 1, 2, 3, 4] Omitted rankStore) r))
        [2, 0, 3, 1, 4] = [Some 9, Some 5, Some 1, Some (-2), None]"
    by (simp add: eval_defs)
  have tie: "score (snd (fuzzyFilterSort rankModule ''x'' [0, 5] Omitted rankStore) 0)
       = score (snd (fuzzyFilterSort rankModule ''x'' [0, 5] Omitted rankStore) 5)"
    by (simp add: eval_defs)
  note t = filter_rank_sorted_descending [of "[0, 1, 2, 3, 4]" rankModule "''x''" Omitted rankStore]
  note u = filter_rank_sorted_descending [of "[0, 5]" rankModule "''x''" Omitted rankStore]
  from t have "mset (fst (fuzzyFilterSort rankModule ''x'' [0, 1, 2, 3, 4] Omitted rankStore))
       = mset (filter (\<lambda>r. score (snd (fuzzyFilterSort rankModule ''x'' [0, 1, 2, 3, 4] Omitted
                                         rankStore) r) \<noteq> None) [0, 1, 2, 3, 4])"
    by blast
  moreover from t have "sorted_wrt (\<lambda>a b. \<exists>sa sb.
          score (snd (fuzzyFilterSort rankModule ''x'' [0, 1, 2, 3, 4] Omitted rankStore) a) = Some sa
        \<and> score (snd (fuzzyFilterSort rankModule ''x'' [0, 1, 2, 3, 4] Omitted rankStore) b) = Some sb
        \<and> sb \<le> sa) (fst (fuzzyFilterSort rankModule ''x'' [0, 1, 2, 3, 4] Omitted rankStore))"
    by blast
  moreover from u tie
  have "compareFn (snd (fuzzyFilterSort rankModule ''x'' [0, 5] Omitted rankStore) 0)
                 (snd (fuzzyFilterSort rankModule ''x'' [0, 5] Omitted rankStore) 5) = 0"
    by blast
  ultimately show ?thesis using out scores tie by (simp only: simp_thms)
qed

text \<open>
  Claim C4. A call of \<open>fuzzyFilterSort\<close> changes nothing but the fields \<open>score\<close> and
  \<open>decoratedStrings\<close> of the objects: every object after the call is the object before
  it with these two fields set, so its alias list and all its other fields are the same;
  an object the array does not reach is not changed at all. Every element of the returned
  array is a reference of the input array (no object is copied or created), and none
  occurs more often than in the input.
\<close>

theorem only_score_and_decoration_change:
  "snd (fuzzyFilterSort M flt items d h) r
     = (h r)\<lparr> score := score (snd (fuzzyFilterSort M flt items d h) r),
               decoratedStrings := decoratedStrings (snd (fuzzyFilterSort M flt items d h) r) \<rparr>
   \<and> strings (snd (fuzzyFilterSort M flt items d h) r) = strings (h r)
   \<and> ScorableTextItem.more (snd (fuzzyFilterSort M flt items d h) r) = ScorableTextItem.more (h r)
   \<and> (r \<notin> set items \<longrightarrow> snd (fuzzyFilterSort M flt items d h) r = h r)
   \<and> set (fst (fuzzyFilterSort M flt items d h)) \<subseteq> set items
   \<and> mset (fst (fuzzyFilterSort M flt items d h)) \<subseteq># mset items"
proof (intro conjI impI)
  show "snd (fuzzyFilterSort M flt items d h) r
     = (h r)\<lparr> score := score (snd (fuzzyFilterSort M flt items d h) r),
               decoratedStrings := decoratedStrings (snd (fuzzyFilterSort M flt items d h) r) \<rparr>"
    using annotateItem_frame [of M flt d "h r"] by (simp add: fuzzyFilterSort_store)
  show "strings (snd (fuzzyFilterSort M flt items d h) r) = strings (h r)"
    by (simp add: fuzzyFilterSort_store annotateItem_strings)
  show "ScorableTextItem.more (snd (fuzzyFilterSort M flt items d h) r) = ScorableTextItem.more (h r)"
    by (simp add: fuzzyFilterSort_store annotateItem_more)
  show "set (fst (fuzzyFilterSort M flt items d h)) \<subseteq> set items"
    by (auto simp: fuzzyFilterSort_set)
  show "mset (fst (fuzzyFilterSort M flt items d h)) \<subseteq># mset items"
    by (simp add: fuzzyFilterSort_mset)
next
  assume "r \<notin> set items"
  then show "snd (fuzzyFilterSort M flt items d h) r = h r"
    by (simp add: fuzzyFilterSort_store)
qed

theorem only_score_and_decoration_change_witness:
  "snd (fuzzyFilterSort rankModule ''x'' [0, 2, 0] Omitted rankStore) 4 = rankStore 4
   \<and> snd (fuzzyFilterSort rankModule ''x'' [0, 2, 0] Omitted rankStore) 2
       = (rankStore 2)\<lparr> score := Some 9, decoratedStrings := Some [[''c'']] \<rparr>
   \<and> fst (fuzzyFilterSort rankModule ''x'' [0, 2, 0] Omitted rankStore) = [2, 0, 0]
   \<and> set (fst (fuzzyFilterSort rankModule ''x'' [0, 2, 0] Omitted rankStore)) \<subseteq> set [0, 2, 0]"
proof -
  have "(4::nat) \<notin> set [0, 2, 0]" by simp
  then have "snd (fuzzyFilterSort rankModule ''x'' [0, 2, 0] Omitted rankStore) 4 = rankStore 4"
    using only_score_and_decoration_change [of rankModule "''x''" "[0, 2, 0]" Omitted rankStore 4]
    by blast
  moreover have "score (snd (fuzzyFilterSort rankModule ''x'' [0, 2, 0] Omitted rankStore) 2) = Some 9"
    by (simp add: eval_defs)
  moreover have "decoratedStrings (snd (fuzzyFilterSort rankModule ''x'' [0, 2, 0] Omitted rankStore) 2)
      = Some [[''c'']]"
    by (simp add: eval_defs)
  moreover have "fst (fuzzyFilterSort rankModule ''x'' [0, 2, 0] Omitted rankStore) = [2, 0, 0]"
    by (simp add: eval_defs)
  ultimately show ?thesis
    using only_score_and_decoration_change [of rankModule "''x''" "[0, 2, 0]" Omitted rankStore 2]
    by simp
qed

text \<open>
  Claim C5, as stated, has the decorator split an alias that comes without scores on the
  separator. The source returns \<open>[word]\<close> before any splitting: the unmatched alias
  \<open>light::kitchen\<close> stays one fragment, where a split would give two.
\<close>

theorem unmatched_alias_split_counterexample:
  "decorateMatch kitchenModule ''light::kitchen'' (''['', '']'') None = [''light::kitchen'']
   \<and> split_sep ''light::kitchen'' = [''light'', ''kitchen'']
   \<and> decorateMatch kitchenModule ''light::kitchen'' (''['', '']'') None
       \<noteq> split_sep ''light::kitchen''"
  by (simp add: decorateMatch_def split_sep_def)

text \<open>
  Claim C5, amended. For every alias that comes without scores (it does not match), the
  decorator returns a single-element list holding the alias itself, not split on the
  separator. The aggregator collects one fragment group per alias, those of non-matching
  aliases included, in the order of the alias list: the groups are the decorator applied
  to each alias and its scores in turn.
\<close>

theorem unmatched_alias_single_fragment:
  "decorateMatch M word surroundWith None = [word]
   \<and> createMatchDecorator M left right word None = [word]
   \<and> (\<forall>m dec. fuzzySequentialMatch M flt item (Given dec) = Some m \<longrightarrow>
         decoratedStrings m = Some (map (\<lambda>w. dec w (callScorer M flt w)) (strings item)))
   \<and> (\<forall>m. fuzzySequentialMatch M flt item Omitted = Some m \<longrightarrow>
         decoratedStrings m
           = Some (map (\<lambda>w. if callScorer M flt w = None then [w]
                            else decorateMatch M w (''['', '']'') (callScorer M flt w))
                     (strings item)))"
proof (intro conjI allI impI)
  show "decorateMatch M word surroundWith None = [word]"
    by (simp add: decorateMatch_def)
  show "createMatchDecorator M left right word None = [word]"
    by (simp add: createMatchDecorator_def decorateMatch_def)
next
  fix m dec assume "fuzzySequentialMatch M flt item (Given dec) = Some m"
  then show "decoratedStrings m = Some (map (\<lambda>w. dec w (callScorer M flt w)) (strings item))"
    using fuzzySequentialMatch_decorated [of M flt item "Given dec" m] by simp
next
  fix m assume "fuzzySequentialMatch M flt item Omitted = Some m"
  then have "decoratedStrings m
      = Some (map (\<lambda>w. decorateMatch M w (''['', '']'') (callScorer M flt w)) (strings item))"
    using fuzzySequentialMatch_decorated [of M flt item Omitted m]
    by (simp add: createMatchDecorator_def)
  moreover have "(\<lambda>w. decorateMatch M w (''['', '']'') (callScorer M flt w))
      = (\<lambda>w. if callScorer M flt w = None then [w]
              else decorateMatch M w (''['', '']'') (callScorer M flt w))"
    by (rule ext) (simp add: decorateMatch_def)
  ultimately show "decoratedStrings m
           = Some (map (\<lambda>w. if callScorer M flt w = None then [w]
                            else decorateMatch M w (''['', '']'') (callScorer M flt w))
                     (strings item))"
    by simp
qed

theorem unmatched_alias_single_fragment_witness:
  "callScorer kitchenModule ''ki'' ''light::kitchen'' = None
   \<and> fuzzySequentialMatch kitchenModule ''ki'' (kitchenStore 4) Omitted
       = Some \<lparr> score = Some 1, strings = [''light::kitchen'', ''Kitchen''],
                decoratedStrings = Some [[''light::kitchen''], [''[Ki]tchen'']] \<rparr>
   \<and> Some [[''light::kitchen''], [''[Ki]tchen'']]
       = Some (map (\<lambda>w. if callScorer kitchenModule ''ki'' w = None then [w]
                        else decorateMatch kitchenModule w (''['', '']'')
                               (callScorer kitchenModule ''ki'' w))
                 (strings (kitchenStore 4)))
   \<and> fuzzySequentialMatch kitchenModule ''ki'' (kitchenStore 4)
         (Given (\<lambda>w sc. [w, w]))
       = Some \<lparr> score = Some 1, strings = [''light::kitchen'', ''Kitchen''],
                decoratedStrings = Some [[''light::kitchen'', ''light::kitchen''],
                                         [''Kitchen'', ''Kitchen'']] \<rparr>"
proof -
  let ?m = "\<lparr> score = Some 1, strings = [''light::kitchen'', ''Kitchen''],
                decoratedStrings = Some [[''light::kitchen''], [''[Ki]tchen'']] \<rparr>"
  have no: "callScorer kitchenModule ''ki'' ''light::kitchen'' = None"
    by (simp add: eval_defs)
  have found: "fuzzySequentialMatch kitchenModule ''ki'' (kitchenStore 4) Omitted = Some ?m"
    by (simp add: eval_defs)
  have given: "fuzzySequentialMatch kitchenModule ''ki'' (kitchenStore 4) (Given (\<lambda>w sc. [w, w]))
       = Some \<lparr> score = Some 1, strings = [''light::kitchen'', ''Kitchen''],
                decoratedStrings = Some [[''light::kitchen'', ''light::kitchen''],
                                         [''Kitchen'', ''Kitchen'']] \<rparr>"
    by (simp add: eval_defs)
  have "decoratedStrings ?m
       = Some (map (\<lambda>w. if callScorer kitchenModule ''ki'' w = None then [w]
                        else decorateMatch kitchenModule w (''['', '']'')
                               (callScorer kitchenModule ''ki'' w))
                 (strings (kitchenStore 4)))"
    using unmatched_alias_single_fragment
      [of kitchenModule _ _ _ _ "''ki''" "kitchenStore 4"] found
    by blast
  then show ?thesis using no found given by simp
qed

text \<open>
  Claim C6, as stated, has the decorator split wherever the separator occurs in the
  original text. The source splits the wrapped text: when a marker lands between the two
  colons, the separator of the original is no longer one. The filter \<open>light:\<close> matches
  the first six characters of \<open>light::kitchen\<close>, and the result is a single fragment.
\<close>

theorem split_at_original_separators_counterexample:
  "callScorer kitchenModule ''light:'' ''light::kitchen''
     = Some \<lparr> score0 = 12, positions = [0, 6] \<rparr>
   \<and> createMatches kitchenModule \<lparr> score0 = 12, positions = [0, 6] \<rparr>
       = [\<lparr> m_start = 0, m_end = 6 \<rparr>]
   \<and> hasSep ''light::kitchen''
   \<and> split_sep ''light::kitchen'' = [''light'', ''kitchen'']
   \<and> decorateMatch kitchenModule ''light::kitchen'' (''['', '']'')
        (callScorer kitchenModule ''light:'' ''light::kitchen'') = [''[light:]:kitchen'']"
  by (simp add: eval_defs)

text \<open>
  Claim C6, amended. For every alias and every list of matched ranges, the decorator
  first wraps the ranges with the markers against raw character offsets of the original
  string, and then splits the wrapped text at each separator \<open>::\<close> of the wrapped text. For
  ranges that lie in the alias from left to right without overlap, the fragments are the
  split of the alias with, for every range, the left marker inserted at the range's start
  offset and the right marker at its end offset, both offsets of the original string. For
  any ranges, the fragments are non-overlapping pieces of the wrapped text: joined with
  the separator they give it back, none contains a separator, each cut is at the first
  separator after the previous cut (a fragment followed by one colon has no separator),
  and a wrapped text without separator is one fragment. In particular \<open>light::kitchen\<close> with the range of \<open>kitchen\<close>
  and the markers \<open>[\<close> and \<open>]\<close> gives exactly the fragments \<open>light\<close> and \<open>[kitchen]\<close>.
\<close>

theorem decorate_wraps_then_splits:
  "(spansOk word 0 (createMatches M sc) \<longrightarrow>
      decorateMatch M word (left, right) (Some sc)
        = split_sep (markersAtOffsets word left right (createMatches M sc))
    \<and> joinSep (decorateMatch M word (left, right) (Some sc))
        = markersAtOffsets word left right (createMatches M sc))
   \<and> decorateMatch M word (left, right) (Some sc)
       = split_sep (actualWord word left right (createMatches M sc))
   \<and> joinSep (decorateMatch M word (left, right) (Some sc))
       = actualWord word left right (createMatches M sc)
   \<and> (\<forall>f\<in>set (decorateMatch M word (left, right) (Some sc)). \<not> hasSep f)
   \<and> (\<forall>f\<in>set (butlast (decorateMatch M word (left, right) (Some sc))).
         \<not> hasSep (f @ '':''))
   \<and> (\<not> hasSep (actualWord word left right (createMatches M sc)) \<longrightarrow>
         decorateMatch M word (left, right) (Some sc)
           = [actualWord word left right (createMatches M sc)])
   \<and> (createMatches M sc = [\<lparr> m_start = 7, m_end = 14 \<rparr>] \<longrightarrow>
         decorateMatch M ''light::kitchen'' (''['', '']'') (Some sc) = [''light'', ''[kitchen]''])"
proof (intro conjI impI ballI)
  show split: "decorateMatch M word (left, right) (Some sc)
     = split_sep (actualWord word left right (createMatches M sc))"
    by (rule decorateMatch_Some)
  show join: "joinSep (decorateMatch M word (left, right) (Some sc))
       = actualWord word left right (createMatches M sc)"
    by (simp only: split joinSep_split_sep)
  {
    assume ok: "spansOk word 0 (createMatches M sc)"
    have same: "actualWord word left right (createMatches M sc)
                  = markersAtOffsets word left right (createMatches M sc)"
      by (rule actualWord_markers [OF ok])
    show "decorateMatch M word (left, right) (Some sc)
        = split_sep (markersAtOffsets word left right (createMatches M sc))"
      using split same by simp
    show "joinSep (decorateMatch M word (left, right) (Some sc))
        = markersAtOffsets word left right (createMatches M sc)"
      using join same by simp
  }
  {
    fix f assume "f \<in> set (decorateMatch M word (left, right) (Some sc))"
    then show "\<not> hasSep f" unfolding split by (rule split_sep_no_sep)
  }
  {
    fix f assume "f \<in> set (butlast (decorateMatch M word (left, right) (Some sc)))"
    then show "\<not> hasSep (f @ '':'')" unfolding split by (rule split_sep_leftmost)
  }
  {
    assume "\<not> hasSep (actualWord word left right (createMatches M sc))"
    then show "decorateMatch M word (left, right) (Some sc)
           = [actualWord word left right (createMatches M sc)]"
      unfolding split by (rule split_sep_single)
  }
  {
    assume "createMatches M sc = [\<lparr> m_start = 7, m_end = 14 \<rparr>]"
    then show "decorateMatch M ''light::kitchen'' (''['', '']'') (Some sc) = [''light'', ''[kitchen]'']"
      by (simp add: decorateMatch_def substring_def substringFrom_def clampIndex_def split_sep_def)
  }
qed

theorem decorate_wraps_then_splits_witness:
  "callScorer kitchenModule ''kitchen'' ''light::kitchen''
     = Some \<lparr> score0 = -7, positions = [7, 14] \<rparr>
   \<and> createMatches kitchenModule \<lparr> score0 = -7, positions = [7, 14] \<rparr>
       = [\<lparr> m_start = 7, m_end = 14 \<rparr>]
   \<and> spansOk ''light::kitchen'' 0 [\<lparr> m_start = 7, m_end = 14 \<rparr>]
   \<and> decorateMatch kitchenModule ''light::kitchen'' (''['', '']'')
        (Some \<lparr> score0 = -7, positions = [7, 14] \<rparr>) = [''light'', ''[kitchen]'']
   \<and> markersAtOffsets ''light::kitchen'' ''['' '']'' [\<lparr> m_start = 7, m_end = 14 \<rparr>]
       = ''light::[kitchen]''
   \<and> joinSep [''light'', ''[kitchen]''] = ''light::[kitchen]''
   \<and> \<not> hasSep ''light'' \<and> \<not> hasSep ''[kitchen]''
   \<and> createMatches kitchenModule \<lparr> score0 = 8, positions = [0, 1, 2, 5] \<rparr>
       = [\<lparr> m_start = 0, m_end = 1 \<rparr>, \<lparr> m_start = 2, m_end = 5 \<rparr>]
   \<and> spansOk ''Kitchen::Light'' 0 [\<lparr> m_start = 0, m_end = 1 \<rparr>, \<lparr> m_start = 2, m_end = 5 \<rparr>]
   \<and> markersAtOffsets ''Kitchen::Light'' ''['' '']''
        [\<lparr> m_start = 0, m_end = 1 \<rparr>, \<lparr> m_start = 2, m_end = 5 \<rparr>] = ''[K]i[tch]en::Light''
   \<and> decorateMatch kitchenModule ''Kitchen::Light'' (''['', '']'')
        (Some \<lparr> score0 = 8, positions = [0, 1, 2, 5] \<rparr>) = [''[K]i[tch]en'', ''Light'']
   \<and> \<not> hasSep ''[Ki]tchen''
   \<and> decorateMatch kitchenModule ''Kitchen'' (''['', '']'')
        (Some \<lparr> score0 = 0, positions = [0, 2] \<rparr>) = [''[Ki]tchen'']"
proof -
  let ?sc = "\<lparr> score0 = -7, positions = [7, 14] \<rparr>"
  let ?m = "\<lparr> m_start = 7, m_end = 14 \<rparr>"
  let ?w = "''light::kitchen''"
  let ?sc2 = "\<lparr> score0 = 8, positions = [0, 1, 2, 5] \<rparr>"
  let ?ms2 = "[\<lparr> m_start = 0, m_end = 1 \<rparr>, \<lparr> m_start = 2, m_end = 5 \<rparr>]"
  let ?w2 = "''Kitchen::Light''"
  let ?sc3 = "\<lparr> score0 = 0, positions = [0, 2] \<rparr>"
  have call: "callScorer kitchenModule ''kitchen'' ?w = Some ?sc"
    by (simp add: eval_defs)
  have cm: "createMatches kitchenModule ?sc = [?m]"
    by (simp add: eval_defs)
  have cm2: "createMatches kitchenModule ?sc2 = ?ms2"
    by (simp add: eval_defs)
  have ok: "spansOk ?w 0 (createMatches kitchenModule ?sc)"
    unfolding cm by simp
  have ok2: "spansOk ?w2 0 (createMatches kitchenModule ?sc2)"
    unfolding cm2 by simp
  have mk: "markersAtOffsets ?w ''['' '']'' [?m] = ''light::[kitchen]''"
    by (simp add: markersAtOffsets_def insertAt_def)
  have mk2: "markersAtOffsets ?w2 ''['' '']'' ?ms2 = ''[K]i[tch]en::Light''"
    by (simp add: markersAtOffsets_def insertAt_def)
  note t = decorate_wraps_then_splits [of ?w kitchenModule ?sc "''[''" "'']''"]
  note t2 = decorate_wraps_then_splits [of ?w2 kitchenModule ?sc2 "''[''" "'']''"]
  note t3 = decorate_wraps_then_splits [of "''Kitchen''" kitchenModule ?sc3 "''[''" "'']''"]
  have frags: "decorateMatch kitchenModule ?w (''['', '']'') (Some ?sc) = [''light'', ''[kitchen]'']"
    using t cm by blast
  have join: "joinSep (decorateMatch kitchenModule ?w (''['', '']'') (Some ?sc))
       = markersAtOffsets ?w ''['' '']'' (createMatches kitchenModule ?sc)"
    using t ok by blast
  have nosep: "\<forall>f\<in>set (decorateMatch kitchenModule ?w (''['', '']'') (Some ?sc)). \<not> hasSep f"
    using t by blast
  have "decorateMatch kitchenModule ?w2 (''['', '']'') (Some ?sc2)
          = split_sep (markersAtOffsets ?w2 ''['' '']'' (createMatches kitchenModule ?sc2))"
    using t2 ok2 by blast
  then have frags2: "decorateMatch kitchenModule ?w2 (''['', '']'') (Some ?sc2)
          = [''[K]i[tch]en'', ''Light'']"
    unfolding cm2 mk2 by (simp add: split_sep_def)
  have wrapped3: "actualWord ''Kitchen'' ''['' '']'' (createMatches kitchenModule ?sc3) = ''[Ki]tchen''"
    by (simp add: eval_defs actualWord_def)
  have plain3: "\<not> hasSep ''[Ki]tchen''" by simp
  have frags3: "decorateMatch kitchenModule ''Kitchen'' (''['', '']'') (Some ?sc3) = [''[Ki]tchen'']"
    using t3 plain3 unfolding wrapped3 by blast
  show ?thesis
    using call cm ok frags join nosep mk cm2 ok2 mk2 frags2 plain3 frags3
    unfolding cm cm2 frags mk by simp
qed

text \<open>
  Claim C7, as stated, returns all items for the empty filter. An item with an empty alias
  list is never scored, so it is dropped although the scorer matches every alias on the
  empty filter.
\<close>

theorem empty_filter_all_items_counterexample:
  "strings (specStore 2) = []
   \<and> set (fst (fuzzyFilterSort (specModule (\<lambda>p w. \<lparr> score0 = 0, positions = [] \<rparr>) (\<lambda>sc. []))
              [] [0, 1, 2] Omitted specStore)) = {0, 1}
   \<and> score (snd (fuzzyFilterSort (specModule (\<lambda>p w. \<lparr> score0 = 0, positions = [] \<rparr>) (\<lambda>sc. []))
              [] [0, 1, 2] Omitted specStore) 2) = None"
  by (simp add: eval_defs spec_defs)

text \<open>
  Claim C7, amended. For the empty filter string, every candidate with at least one alias
  trivially matches: with the scorer as the spec describes it, every alias matches the
  empty filter, and \<open>fuzzyFilterSort\<close> on the empty filter returns all items whose alias
  list is not empty, as often as they occur in the input, each with a defined score. The
  items with an empty alias list are the ones left out, and their score is undefined.
\<close>

theorem empty_filter_keeps_items_with_aliases:
  "(\<forall>r\<in>set items. \<forall>w\<in>set (strings (h r)). callScorer (specModule answer ranges) [] w \<noteq> None)
   \<and> mset (fst (fuzzyFilterSort (specModule answer ranges) [] items d h))
       = mset (filter (\<lambda>r. strings (h r) \<noteq> []) items)
   \<and> (\<forall>r\<in>set items.
         score (snd (fuzzyFilterSort (specModule answer ranges) [] items d h) r) \<noteq> None
           \<longleftrightarrow> strings (h r) \<noteq> [])
   \<and> (\<forall>r\<in>set (fst (fuzzyFilterSort (specModule answer ranges) [] items d h)).
         score (snd (fuzzyFilterSort (specModule answer ranges) [] items d h) r) \<noteq> None)"
proof -
  let ?M = "specModule answer ranges"
  let ?h' = "snd (fuzzyFilterSort ?M [] items d h)"
  have sc: "\<And>r. r \<in> set items \<Longrightarrow> score (?h' r) \<noteq> None \<longleftrightarrow> strings (h r) \<noteq> []"
    by (simp add: fuzzyFilterSort_store annotateItem_score rawScores_specModule_empty_filter)
  have "filter (\<lambda>r. score (?h' r) \<noteq> None) items = filter (\<lambda>r. strings (h r) \<noteq> []) items"
    by (rule filter_cong [OF refl]) (erule sc)
  then have "mset (fst (fuzzyFilterSort ?M [] items d h))
           = mset (filter (\<lambda>r. strings (h r) \<noteq> []) items)"
    by (simp add: fuzzyFilterSort_mset)
  moreover have "\<forall>r\<in>set (fst (fuzzyFilterSort ?M [] items d h)). score (?h' r) \<noteq> None"
    by (simp add: fuzzyFilterSort_set)
  moreover have "\<forall>r\<in>set items. \<forall>w\<in>set (strings (h r)). callScorer ?M [] w \<noteq> None"
    using specModule_empty_filter by blast
  ultimately show ?thesis using sc by simp
qed

theorem empty_filter_keeps_items_with_aliases_witness:
  "set (fst (fuzzyFilterSort (specModule (\<lambda>p w. \<lparr> score0 = 0, positions = [] \<rparr>) (\<lambda>sc. []))
              [] [0, 1, 2] Omitted specStore)) = {0, 1}
   \<and> mset (fst (fuzzyFilterSort (specModule (\<lambda>p w. \<lparr> score0 = 0, positions = [] \<rparr>) (\<lambda>sc. []))
              [] [0, 1, 2] Omitted specStore))
       = mset (filter (\<lambda>r. strings (specStore r) \<noteq> []) [0, 1, 2])
   \<and> map (\<lambda>r. score (snd (fuzzyFilterSort (specModule (\<lambda>p w. \<lparr> score0 = 0, positions = [] \<rparr>)
                                               (\<lambda>sc. []))
                             [] [0, 1, 2] Omitted specStore) r)) [0, 1, 2]
       = [Some 1, Some 1, None]
   \<and> fst (fuzzyFilterSort (specModule (\<lambda>p w. \<lparr> score0 = 0, positions = [] \<rparr>) (\<lambda>sc. []))
              ''ktch'' [0, 1, 2] Omitted specStore) = [0]"
proof -
  let ?M = "specModule (\<lambda>p w. \<lparr> score0 = 0, positions = [] \<rparr>) (\<lambda>sc. [])"
  have out: "set (fst (fuzzyFilterSort ?M [] [0, 1, 2] Omitted specStore)) = {0, 1}"
    by (simp add: eval_defs spec_defs) 
  have scores: "map (\<lambda>r. score (snd (fuzzyFilterSort ?M [] [0, 1, 2] Omitted specStore) r)) [0, 1, 2]
       = [Some 1, Some 1, None]"
    by (simp add: eval_defs spec_defs)
  have ktch: "fst (fuzzyFilterSort ?M ''ktch'' [0, 1, 2] Omitted specStore) = [0]"
    by (simp add: eval_defs spec_defs)
  from empty_filter_keeps_items_with_aliases [of "[0, 1, 2]" specStore _ _ Omitted]
  have "mset (fst (fuzzyFilterSort ?M [] [0, 1, 2] Omitted specStore))
           = mset (filter (\<lambda>r. strings (specStore r) \<noteq> []) [0, 1, 2])"
    by blast
  then show ?thesis using out scores ktch by (simp only: simp_thms)
qed

text \<open>
  Claim C8, as stated, has the component never raise for a string filter and an item. The
  source has no \<open>try\<close>, so an exception of a function it calls ends the call: with the
  string filter \<open>x\<close>, an item with the alias \<open>c\<close> and a decorator that raises, the
  aggregator and the driver raise.
\<close>

theorem component_raises_counterexample:
  "strings (rankStore 2) = [''c'']
   \<and> fuzzySequentialMatchE (liftModule rankModule) (JString ''x'') (rankStore 2)
        (GivenE throwingDecorator) = Inl (Thrown ''decorate'')
   \<and> fst (fuzzyFilterSortE (liftModule rankModule) (JString ''x'') [2] (GivenE throwingDecorator)
            rankStore) = Inl (Thrown ''decorate'')"
  by (simp add: evalE_defs eval_defs)

text \<open>
  Claim C8, amended. For every string filter and every item, the component never raises
  of its own: a call raises only when a function it calls raises, and with callees that
  return the only failure outcome is an absent score. In the model with exceptions, with
  callees that return, the aggregator and the driver return what the first model
  computes, and the aggregator's answer is \<open>undefined\<close> or an object with a score. For
  any callees, an exception of the aggregator is the exception of a call of the scorer or
  of the decorator on one of the item's aliases, an exception of the default decorator is
  one of \<open>createMatches\<close>, and an exception of the driver is one of the aggregator on an
  item of the array. An item with an empty alias list never produces a match: the
  aggregator returns \<open>undefined\<close> for it rather than throwing, without calling anything,
  whatever the callees and the filter, and the driver leaves its score absent and drops
  it. A filter that is not a string is outside the claim: with an alias to score, the
  call raises a \<open>TypeError\<close>.
\<close>

theorem raises_only_through_callees:
  "fuzzySequentialMatchE (liftModule M) (JString f) item (liftArg d)
     = Inr (fuzzySequentialMatch M f item d)
   \<and> fuzzyFilterSortE (liftModule M) (JString f) items (liftArg d) h
       = (Inr (fst (fuzzyFilterSort M f items d h)), snd (fuzzyFilterSort M f items d h))
   \<and> (fuzzySequentialMatch M f item d = None
        \<or> (\<exists>s ds. fuzzySequentialMatch M f item d
               = Some \<lparr> score = Some s, strings = strings item, decoratedStrings = Some ds \<rparr>))
   \<and> (fuzzySequentialMatchE ME (JString f) item dE = Inl e \<longrightarrow>
         (\<exists>w\<in>set (strings item). callScorerE ME f w = Inl e
            \<or> (\<exists>dec s. effectiveDecoratorE ME dE = Some dec \<and> callScorerE ME f w = Inr s
                        \<and> dec w s = Inl e)))
   \<and> (createMatchDecoratorE ME left right w scores = Inl e \<longrightarrow>
         (\<exists>sc. scores = Some sc \<and> createMatchesE ME sc = Inl e))
   \<and> (fst (fuzzyFilterSortE ME (JString f) items dE h) = Inl e \<longrightarrow>
         (\<exists>r\<in>set items. fuzzySequentialMatchE ME (JString f) (h r) dE = Inl e))
   \<and> (strings item = [] \<longrightarrow>
         fuzzySequentialMatchE ME flt item dE = Inr None
       \<and> fuzzySequentialMatch M f item d = None)
   \<and> (r \<in> set items \<and> strings (h r) = [] \<longrightarrow>
         score (snd (fuzzyFilterSort M f items d h) r) = None
       \<and> r \<notin> set (fst (fuzzyFilterSort M f items d h)))
   \<and> ((\<forall>s. flt \<noteq> JString s) \<and> strings item \<noteq> [] \<longrightarrow>
         fuzzySequentialMatchE ME flt item dE = Inl TypeError)"
proof (intro conjI impI)
  show "fuzzySequentialMatchE (liftModule M) (JString f) item (liftArg d)
     = Inr (fuzzySequentialMatch M f item d)"
    by (rule fuzzySequentialMatchE_lift)
  show "fuzzyFilterSortE (liftModule M) (JString f) items (liftArg d) h
       = (Inr (fst (fuzzyFilterSort M f items d h)), snd (fuzzyFilterSort M f items d h))"
    by (rule fuzzyFilterSortE_lift)
  show "fuzzySequentialMatch M f item d = None
        \<or> (\<exists>s ds. fuzzySequentialMatch M f item d
               = Some \<lparr> score = Some s, strings = strings item, decoratedStrings = Some ds \<rparr>)"
    by (simp add: fuzzySequentialMatch_topScore)
  {
    assume "fuzzySequentialMatchE ME (JString f) item dE = Inl e"
    then show "\<exists>w\<in>set (strings item). callScorerE ME f w = Inl e
            \<or> (\<exists>dec s. effectiveDecoratorE ME dE = Some dec \<and> callScorerE ME f w = Inr s
                        \<and> dec w s = Inl e)"
      by (rule fuzzySequentialMatchE_raise_origin)
  }
  {
    assume "createMatchDecoratorE ME left right w scores = Inl e"
    then show "\<exists>sc. scores = Some sc \<and> createMatchesE ME sc = Inl e"
      by (rule createMatchDecoratorE_raise_origin)
  }
  {
    assume "fst (fuzzyFilterSortE ME (JString f) items dE h) = Inl e"
    then show "\<exists>r\<in>set items. fuzzySequentialMatchE ME (JString f) (h r) dE = Inl e"
      by (rule fuzzyFilterSortE_raise_origin)
  }
  {
    assume empty: "strings item = []"
    then show "fuzzySequentialMatchE ME flt item dE = Inr None"
      by (rule fuzzySequentialMatchE_no_alias)
    from empty show "fuzzySequentialMatch M f item d = None"
      by (simp add: fuzzySequentialMatch_def)
  }
  {
    assume a: "r \<in> set items \<and> strings (h r) = []"
    then show none: "score (snd (fuzzyFilterSort M f items d h) r) = None"
      by (simp add: fuzzyFilterSort_store annotateItem_score rawScores_Nil)
    then show "r \<notin> set (fst (fuzzyFilterSort M f items d h))"
      by (simp add: fuzzyFilterSort_set)
  }
  {
    assume "(\<forall>s. flt \<noteq> JString s) \<and> strings item \<noteq> []"
    then show "fuzzySequentialMatchE ME flt item dE = Inl TypeError"
      by (simp add: fuzzySequentialMatchE_not_string)
  }
qed

theorem raises_only_through_callees_witness:
  "fuzzyFilterSortE (liftModule rankModule) (JString ''x'') [7, 2] (liftArg Omitted) rankStore
     = (Inr [2], snd (fuzzyFilterSort rankModule ''x'' [7, 2] Omitted rankStore))
   \<and> strings (rankStore 7) = []
   \<and> fuzzySequentialMatchE throwingModule JUndefined (rankStore 7) OmittedE = Inr None
   \<and> fuzzySequentialMatch rankModule ''x'' (rankStore 7) Omitted = None
   \<and> score (snd (fuzzyFilterSort rankModule ''x'' [7, 2] Omitted rankStore) 7) = None
   \<and> strings (rankStore 2) = [''c'']
   \<and> fuzzySequentialMatchE (liftModule rankModule) JUndefined (rankStore 2) OmittedE
       = Inl TypeError
   \<and> fuzzySequentialMatchE throwingModule (JString ''x'') (rankStore 2) OmittedE
       = Inl (Thrown ''fuzzyScore'')
   \<and> (\<exists>w\<in>set (strings (rankStore 2)).
         callScorerE throwingModule ''x'' w = Inl (Thrown ''fuzzyScore'')
         \<or> (\<exists>dec s. effectiveDecoratorE throwingModule OmittedE = Some dec
                \<and> callScorerE throwingModule ''x'' w = Inr s
                \<and> dec w s = Inl (Thrown ''fuzzyScore'')))
   \<and> fst (fuzzyFilterSortE throwingModule (JString ''x'') [7, 2] OmittedE rankStore)
       = Inl (Thrown ''fuzzyScore'')
   \<and> (\<exists>r\<in>set [7, 2]. fuzzySequentialMatchE throwingModule (JString ''x'') (rankStore r) OmittedE
         = Inl (Thrown ''fuzzyScore''))
   \<and> createMatchDecoratorE throwingModule ''['' '']'' ''c'' (Some \<lparr> score0 = 9, positions = [] \<rparr>)
       = Inl (Thrown ''createMatches'')
   \<and> (\<exists>sc. Some \<lparr> score0 = 9, positions = [] \<rparr> = Some sc
         \<and> createMatchesE throwingModule sc = Inl (Thrown ''createMatches''))"
proof -
  let ?sc = "\<lparr> score0 = 9, positions = [] \<rparr>"
  note t = raises_only_through_callees
    [of rankModule "''x''" "rankStore 7" Omitted "[7, 2]" rankStore
        throwingModule OmittedE "Thrown ''fuzzyScore''" "''[''" "'']''" "''c''" None
        JUndefined 7]
  note u = raises_only_through_callees
    [of rankModule "''x''" "rankStore 2" Omitted "[7, 2]" rankStore
        "liftModule rankModule" OmittedE "Thrown ''fuzzyScore''" "''[''" "'']''" "''c''" None
        JUndefined 7]
  note v = raises_only_through_callees
    [of rankModule "''x''" "rankStore 2" Omitted "[7, 2]" rankStore
        throwingModule OmittedE "Thrown ''fuzzyScore''" "''[''" "'']''" "''c''" None
        JUndefined 7]
  note w = raises_only_through_callees
    [of rankModule "''x''" "rankStore 2" Omitted "[7, 2]" rankStore
        throwingModule OmittedE "Thrown ''createMatches''" "''[''" "'']''" "''c''" "Some ?sc"
        JUndefined 7]
  have out: "fst (fuzzyFilterSort rankModule ''x'' [7, 2] Omitted rankStore) = [2]"
    by (simp add: eval_defs)
  have e7: "strings (rankStore 7) = []" by (simp add: eval_defs)
  have s2: "strings (rankStore 2) = [''c'']" by (simp add: eval_defs)
  have i7: "(7::nat) \<in> set [7, 2]" by simp
  have ns: "\<forall>s. JUndefined \<noteq> JString s" by simp
  have ne2: "strings (rankStore 2) \<noteq> []" unfolding s2 by simp
  from t have lifted:
    "fuzzyFilterSortE (liftModule rankModule) (JString ''x'') [7, 2] (liftArg Omitted) rankStore
       = (Inr (fst (fuzzyFilterSort rankModule ''x'' [7, 2] Omitted rankStore)),
          snd (fuzzyFilterSort rankModule ''x'' [7, 2] Omitted rankStore))"
    by blast
  from t e7 have none: "fuzzySequentialMatchE throwingModule JUndefined (rankStore 7) OmittedE = Inr None
       \<and> fuzzySequentialMatch rankModule ''x'' (rankStore 7) Omitted = None"
    by blast
  from t e7 i7 have dropped:
    "score (snd (fuzzyFilterSort rankModule ''x'' [7, 2] Omitted rankStore) 7) = None"
    by blast
  from u ns ne2
  have fault: "fuzzySequentialMatchE (liftModule rankModule) JUndefined (rankStore 2) OmittedE
       = Inl TypeError"
    by blast
  have thrown: "fuzzySequentialMatchE throwingModule (JString ''x'') (rankStore 2) OmittedE
       = Inl (Thrown ''fuzzyScore'')"
    by (simp add: evalE_defs s2)
  from v thrown
  have origin: "\<exists>w\<in>set (strings (rankStore 2)).
         callScorerE throwingModule ''x'' w = Inl (Thrown ''fuzzyScore'')
         \<or> (\<exists>dec s. effectiveDecoratorE throwingModule OmittedE = Some dec
                \<and> callScorerE throwingModule ''x'' w = Inr s
                \<and> dec w s = Inl (Thrown ''fuzzyScore''))"
    by blast
  have drv: "fst (fuzzyFilterSortE throwingModule (JString ''x'') [7, 2] OmittedE rankStore)
       = Inl (Thrown ''fuzzyScore'')"
    by (simp add: evalE_defs e7 s2)
  from v drv
  have drv_origin: "\<exists>r\<in>set [7, 2].
       fuzzySequentialMatchE throwingModule (JString ''x'') (rankStore r) OmittedE
         = Inl (Thrown ''fuzzyScore'')"
    by blast
  have dec: "createMatchDecoratorE throwingModule ''['' '']'' ''c'' (Some ?sc)
       = Inl (Thrown ''createMatches'')"
    by (simp add: evalE_defs)
  from w dec
  have dec_origin: "\<exists>sc. Some ?sc = Some sc
         \<and> createMatchesE throwingModule sc = Inl (Thrown ''createMatches'')"
    by blast
  show ?thesis
    using lifted none dropped fault thrown origin drv drv_origin dec dec_origin e7 s2
    unfolding out by (simp only: simp_thms)
qed

text \<open>
  Claim C9. After \<open>fuzzyFilterSort\<close> has run, the score of every item of the array is
  defined if and only if at least one of its aliases matches the filter, whatever the
  score was before: an item that had a score and no longer matches has it reset to
  \<open>undefined\<close>. The items in the output are exactly those with a matching alias.
\<close>

theorem score_defined_iff_alias_matched:
  "r \<in> set items \<Longrightarrow>
     (score (snd (fuzzyFilterSort M flt items d h) r) \<noteq> None
        \<longleftrightarrow> (\<exists>w\<in>set (strings (snd (fuzzyFilterSort M flt items d h) r)).
               callScorer M flt w \<noteq> None))
     \<and> ((\<forall>w\<in>set (strings (h r)). callScorer M flt w = None)
          \<longrightarrow> score (snd (fuzzyFilterSort M flt items d h) r) = None)
     \<and> (r \<in> set (fst (fuzzyFilterSort M flt items d h))
          \<longleftrightarrow> (\<exists>w\<in>set (strings (h r)). callScorer M flt w \<noteq> None))"
proof -
  assume r: "r \<in> set items"
  have str: "strings (snd (fuzzyFilterSort M flt items d h) r) = strings (h r)"
    by (simp add: fuzzyFilterSort_store annotateItem_strings)
  have sc: "score (snd (fuzzyFilterSort M flt items d h) r) \<noteq> None
        \<longleftrightarrow> (\<exists>w\<in>set (strings (h r)). callScorer M flt w \<noteq> None)"
    using r by (simp add: fuzzyFilterSort_store annotateItem_score rawScores_empty_iff)
  show ?thesis
    using r sc by (auto simp: str fuzzyFilterSort_set)
qed

theorem score_defined_iff_alias_matched_witness:
  "score (rankStore 4) = Some 7
   \<and> \<not> (\<exists>w\<in>set (strings (rankStore 4)). callScorer rankModule ''x'' w \<noteq> None)
   \<and> score (snd (fuzzyFilterSort rankModule ''x'' [6, 4] Omitted rankStore) 4) = None
   \<and> 4 \<notin> set (fst (fuzzyFilterSort rankModule ''x'' [6, 4] Omitted rankStore))
   \<and> (\<exists>w\<in>set (strings (rankStore 6)). callScorer rankModule ''x'' w \<noteq> None)
   \<and> score (snd (fuzzyFilterSort rankModule ''x'' [6, 4] Omitted rankStore) 6) \<noteq> None
   \<and> 6 \<in> set (fst (fuzzyFilterSort rankModule ''x'' [6, 4] Omitted rankStore))"
proof -
  have in4: "(4::nat) \<in> set [6, 4]" and in6: "(6::nat) \<in> set [6, 4]" by simp_all
  have prev: "score (rankStore 4) = Some 7" by (simp add: eval_defs)
  have no4: "\<forall>w\<in>set (strings (rankStore 4)). callScorer rankModule ''x'' w = None"
    by (simp add: eval_defs)
  have yes6: "\<exists>w\<in>set (strings (rankStore 6)). callScorer rankModule ''x'' w \<noteq> None"
    by (simp add: eval_defs)
  note t4 = score_defined_iff_alias_matched [OF in4, of rankModule "''x''" Omitted rankStore]
  note t6 = score_defined_iff_alias_matched [OF in6, of rankModule "''x''" Omitted rankStore]
  have "score (snd (fuzzyFilterSort rankModule ''x'' [6, 4] Omitted rankStore) 4) = None"
    using t4 no4 by simp
  moreover have "4 \<notin> set (fst (fuzzyFilterSort rankModule ''x'' [6, 4] Omitted rankStore))"
    using t4 no4 by simp
  moreover have "6 \<in> set (fst (fuzzyFilterSort rankModule ''x'' [6, 4] Omitted rankStore))"
    using t6 yes6 by simp
  moreover have "score (snd (fuzzyFilterSort rankModule ''x'' [6, 4] Omitted rankStore) 6) \<noteq> None"
    using t6 yes6 by (simp add: fuzzyFilterSort_store annotateItem_strings)
  ultimately show ?thesis using prev no4 yes6 by simp
qed

text \<open>
  Claim C10. When the caller leaves the decorator out, \<open>fuzzySequentialMatch\<close> and
  \<open>fuzzyFilterSort\<close> behave as if called with the bracket decorator
  \<open>createMatchDecorator("[", "]")\<close>: every match carries one decorated group per alias,
  and so does every item of the driver's output. With a decorator function given, the
  groups are that function's. Only an explicit falsy value that is not \<open>undefined\<close> turns
  decoration off, and then the list of groups is empty.
\<close>

theorem default_bracket_decorator:
  "fuzzySequentialMatch M flt item Omitted
     = fuzzySequentialMatch M flt item (Given (createMatchDecorator M ''['' '']''))
   \<and> fuzzyFilterSort M flt items Omitted h
     = fuzzyFilterSort M flt items (Given (createMatchDecorator M ''['' '']'')) h
   \<and> (\<forall>m. fuzzySequentialMatch M flt item Omitted = Some m \<longrightarrow>
         decoratedStrings m
           = Some (map (\<lambda>w. decorateMatch M w (''['', '']'') (callScorer M flt w)) (strings item)))
   \<and> (r \<in> set (fst (fuzzyFilterSort M flt items Omitted h)) \<longrightarrow>
         decoratedStrings (snd (fuzzyFilterSort M flt items Omitted h) r)
           = Some (map (\<lambda>w. decorateMatch M w (''['', '']'') (callScorer M flt w)) (strings (h r))))
   \<and> (\<forall>m dec. fuzzySequentialMatch M flt item (Given dec) = Some m \<longrightarrow>
         decoratedStrings m = Some (map (\<lambda>w. dec w (callScorer M flt w)) (strings item)))
   \<and> (\<forall>m. fuzzySequentialMatch M flt item Falsy = Some m \<longrightarrow> decoratedStrings m = Some [])"
proof (intro conjI allI impI)
  show "fuzzySequentialMatch M flt item Omitted
     = fuzzySequentialMatch M flt item (Given (createMatchDecorator M ''['' '']''))"
    by (simp add: fuzzySequentialMatch_def)
  show "fuzzyFilterSort M flt items Omitted h
     = fuzzyFilterSort M flt items (Given (createMatchDecorator M ''['' '']'')) h"
    by (simp add: fuzzyFilterSort_def defaultedArg_def)
next
  fix m assume "fuzzySequentialMatch M flt item Omitted = Some m"
  then show "decoratedStrings m
           = Some (map (\<lambda>w. decorateMatch M w (''['', '']'') (callScorer M flt w)) (strings item))"
    using fuzzySequentialMatch_decorated [of M flt item Omitted m]
    by (simp add: createMatchDecorator_def)
next
  assume r: "r \<in> set (fst (fuzzyFilterSort M flt items Omitted h))"
  then have "r \<in> set items" and "score (annotateItem M flt Omitted (h r)) \<noteq> None"
    by (auto simp: fuzzyFilterSort_set fuzzyFilterSort_store)
  then obtain m where m: "fuzzySequentialMatch M flt (h r) Omitted = Some m"
    by (auto simp: annotateItem_score_match split: option.splits)
  then have "decoratedStrings m
           = Some (map (\<lambda>w. decorateMatch M w (''['', '']'') (callScorer M flt w)) (strings (h r)))"
    using fuzzySequentialMatch_decorated [of M flt "h r" Omitted m]
    by (simp add: createMatchDecorator_def)
  with m \<open>r \<in> set items\<close>
  show "decoratedStrings (snd (fuzzyFilterSort M flt items Omitted h) r)
           = Some (map (\<lambda>w. decorateMatch M w (''['', '']'') (callScorer M flt w)) (strings (h r)))"
    by (simp add: fuzzyFilterSort_store annotateItem_decorated)
next
  fix m dec assume "fuzzySequentialMatch M flt item (Given dec) = Some m"
  then show "decoratedStrings m = Some (map (\<lambda>w. dec w (callScorer M flt w)) (strings item))"
    using fuzzySequentialMatch_decorated [of M flt item "Given dec" m] by simp
next
  fix m assume "fuzzySequentialMatch M flt item Falsy = Some m"
  then show "decoratedStrings m = Some []"
    using fuzzySequentialMatch_decorated [of M flt item Falsy m] by simp
qed

theorem default_bracket_decorator_witness:
  "fuzzySequentialMatch kitchenModule ''ki'' (kitchenStore 0) Omitted
     = Some \<lparr> score = Some 1, strings = [''Kitchen'', ''Oven'', ''bike''],
              decoratedStrings = Some [[''[Ki]tchen''], [''Oven''], [''b[ik]e'']] \<rparr>
   \<and> fuzzySequentialMatch kitchenModule ''ki'' (kitchenStore 0) Falsy
     = Some \<lparr> score = Some 1, strings = [''Kitchen'', ''Oven'', ''bike''],
              decoratedStrings = Some [] \<rparr>
   \<and> fst (fuzzyFilterSort kitchenModule ''ki'' [0, 1] Omitted kitchenStore) = [0]
   \<and> decoratedStrings (snd (fuzzyFilterSort kitchenModule ''ki'' [0, 1] Omitted kitchenStore) 0)
       = Some (map (\<lambda>w. decorateMatch kitchenModule w (''['', '']'') (callScorer kitchenModule ''ki'' w))
                 [''Kitchen'', ''Oven'', ''bike''])
   \<and> map (\<lambda>w. decorateMatch kitchenModule w (''['', '']'') (callScorer kitchenModule ''ki'' w))
        [''Kitchen'', ''Oven'', ''bike''] = [[''[Ki]tchen''], [''Oven''], [''b[ik]e'']]"
proof -
  have a: "fuzzySequentialMatch kitchenModule ''ki'' (kitchenStore 0) Omitted
     = Some \<lparr> score = Some 1, strings = [''Kitchen'', ''Oven'', ''bike''],
              decoratedStrings = Some [[''[Ki]tchen''], [''Oven''], [''b[ik]e'']] \<rparr>"
    by (simp add: eval_defs)
  have b: "fuzzySequentialMatch kitchenModule ''ki'' (kitchenStore 0) Falsy
     = Some \<lparr> score = Some 1, strings = [''Kitchen'', ''Oven'', ''bike''],
              decoratedStrings = Some [] \<rparr>"
    by (simp add: eval_defs)
  have out: "fst (fuzzyFilterSort kitchenModule ''ki'' [0, 1] Omitted kitchenStore) = [0]"
    by (simp add: eval_defs)
  have str: "strings (kitchenStore 0) = [''Kitchen'', ''Oven'', ''bike'']"
    by (simp add: eval_defs)
  have ev: "map (\<lambda>w. decorateMatch kitchenModule w (''['', '']'') (callScorer kitchenModule ''ki'' w))
        [''Kitchen'', ''Oven'', ''bike''] = [[''[Ki]tchen''], [''Oven''], [''b[ik]e'']]"
    by (simp add: eval_defs)
  have "(0::nat) \<in> set (fst (fuzzyFilterSort kitchenModule ''ki'' [0, 1] Omitted kitchenStore))"
    unfolding out by simp
  then have "decoratedStrings (snd (fuzzyFilterSort kitchenModule ''ki'' [0, 1] Omitted kitchenStore) 0)
       = Some (map (\<lambda>w. decorateMatch kitchenModule w (''['', '']'') (callScorer kitchenModule ''ki'' w))
                 (strings (kitchenStore 0)))"
    using default_bracket_decorator
      [of kitchenModule "''ki''" "kitchenStore 0" "[0, 1]" kitchenStore 0]
    by blast
  then show ?thesis using a b out ev unfolding str by simp
qed

end
